theory Spec2Isabelle
  imports Complex_Main
begin

section \<open>Python values used by the script\<close>

text \<open>
  The script \<^verbatim>\<open>ADS-B_GPS_TrinoDB_Analysis.py\<close> walks a date range day by day, runs one
  query per day against a remote store, adds a distance column to the result and writes one
  spreadsheet per day. Everything it does goes through four libraries (the store's client,
  pandas, geopy, logging). The model keeps the script's own control flow and data flow and
  takes what the libraries and the store answer from an environment record; every call the
  script protects with \<^verbatim>\<open>try\<close> can raise there.

  An exception is a value, and every value of \<open>exn\<close> is an instance of
  \<^verbatim>\<open>Exception\<close>, which the \<^verbatim>\<open>except\<close> clauses of the script catch. The
  constructors are the classes the model itself has to produce; \<open>Raised\<close> carries
  whatever else a library raises.
\<close>

datatype exn = OverflowError | TypeError | ValueError | KeyError "string list" | Raised string

subsection \<open>Decimal text of integers\<close>

text \<open>\<^verbatim>\<open>str(n)\<close> and the f-string fields \<^verbatim>\<open>{n}\<close> for an integer.\<close>

function str_digits :: "int \<Rightarrow> string" where
  "str_digits n =
     (if n < 10 then [''0123456789'' ! nat n]
      else str_digits (n div 10) @ [''0123456789'' ! nat (n mod 10)])"
  by pat_completeness auto
termination
  by (relation "measure nat") auto

declare str_digits.simps [simp del]

definition str_int :: "int \<Rightarrow> string" where
  "str_int i = (if i < 0 then CHR ''-'' # str_digits (- i) else str_digits i)"

text \<open>A field of \<^verbatim>\<open>strftime\<close>, zero-padded to a width.\<close>

definition zero_pad :: "nat \<Rightarrow> int \<Rightarrow> string" where
  "zero_pad w i = replicate (w - length (str_int i)) (CHR ''0'') @ str_int i"

subsection \<open>datetime and timedelta\<close>

text \<open>
  A naive \<^verbatim>\<open>datetime\<close> of whole seconds is the number of seconds between
  1970-01-01 00:00:00 and it, in its own calendar; a \<^verbatim>\<open>timedelta\<close> is a number of
  seconds. The script builds both from whole days. \<^verbatim>\<open>datetime\<close> covers the years 1
  to 9999, and an addition that leaves the range raises \<^verbatim>\<open>OverflowError\<close>.
\<close>

definition datetime_min :: int where
  "datetime_min = - 62135596800"

definition datetime_max :: int where
  "datetime_max = 253402300799"

definition datetime_add :: "int \<Rightarrow> int \<Rightarrow> exn + int" where
  "datetime_add d td =
     (if datetime_min \<le> d + td \<and> d + td \<le> datetime_max then Inr (d + td)
      else Inl OverflowError)"

definition timedelta :: "int \<Rightarrow> int" where
  "timedelta days = 86400 * days"

text \<open>The proleptic Gregorian calendar, as \<^verbatim>\<open>datetime\<close> computes it from day ordinals
  (day 1 is 0001-01-01, day 719163 is 1970-01-01).\<close>

definition is_leap :: "int \<Rightarrow> bool" where
  "is_leap y = (y mod 4 = 0 \<and> (y mod 100 \<noteq> 0 \<or> y mod 400 = 0))"

definition DAYS_IN_MONTH :: "int list" where
  "DAYS_IN_MONTH = [- 1, 31, 28, 31, 30, 31, 30, 31, 31, 30, 31, 30, 31]"

definition DAYS_BEFORE_MONTH :: "int list" where
  "DAYS_BEFORE_MONTH = [- 1, 0, 31, 59, 90, 120, 151, 181, 212, 243, 273, 304, 334]"

definition days_before_year :: "int \<Rightarrow> int" where
  "days_before_year year =
     (let y = year - 1 in y * 365 + y div 4 - y div 100 + y div 400)"

definition days_before_month :: "int \<Rightarrow> int \<Rightarrow> int" where
  "days_before_month year month =
     DAYS_BEFORE_MONTH ! nat month + (if 2 < month \<and> is_leap year then 1 else 0)"

definition ymd2ord :: "int \<Rightarrow> int \<Rightarrow> int \<Rightarrow> int" where
  "ymd2ord year month day = days_before_year year + days_before_month year month + day"

definition ord2ymd :: "int \<Rightarrow> int \<times> int \<times> int" where
  "ord2ymd ordinal =
     (let n = ordinal - 1;
          n400 = n div 146097; n = n mod 146097;
          n100 = n div 36524; n = n mod 36524;
          n4 = n div 1461; n = n mod 1461;
          n1 = n div 365; n = n mod 365;
          year = n400 * 400 + 1 + n100 * 100 + n4 * 4 + n1
      in if n1 = 4 \<or> n100 = 4 then (year - 1, 12, 31)
         else
           let leapyear = (n1 = 3 \<and> (n4 \<noteq> 24 \<or> n100 = 3));
               month = (n + 50) div 32;
               preceding = DAYS_BEFORE_MONTH ! nat month
                             + (if 2 < month \<and> leapyear then 1 else 0)
           in if n < preceding then
                (year, month - 1,
                 n - (preceding - (DAYS_IN_MONTH ! nat (month - 1)
                                     + (if month - 1 = 2 \<and> leapyear then 1 else 0))) + 1)
              else (year, month, n - preceding + 1))"

text \<open>\<^verbatim>\<open>datetime(year, month, day)\<close>, at midnight, for a date of the calendar.\<close>

definition datetime :: "int \<Rightarrow> int \<Rightarrow> int \<Rightarrow> int" where
  "datetime year month day = (ymd2ord year month day - 719163) * 86400"

text \<open>\<^verbatim>\<open>d.strftime('%Y-%m-%d')\<close>. The year is written with four digits; below the year
  1000 the C libraries differ on the padding.\<close>

definition strftime_Ymd :: "int \<Rightarrow> string" where
  "strftime_Ymd d =
     (case ord2ymd (d div 86400 + 719163) of
        (y, m, dd) \<Rightarrow> zero_pad 4 y @ ''-'' @ zero_pad 2 m @ ''-'' @ zero_pad 2 dd)"

subsection \<open>Tables\<close>

text \<open>
  A pandas \<^verbatim>\<open>DataFrame\<close> with the default row index is its column labels and its rows in
  order. Labels may repeat: pandas then returns every column that carries a label.
  \<open>cells\<close> are the values a row has under a label. One row of a frame, indexed by a
  label, gives the value when one column carries the label and a \<^verbatim>\<open>Series\<close> of the
  values when several do.
\<close>

record 'v dataframe =
  columns :: "string list"
  rows :: "'v list list"

datatype 'v item = Scalar 'v | Series "'v list"

definition cells :: "string list \<Rightarrow> 'v list \<Rightarrow> string \<Rightarrow> 'v list" where
  "cells cols r label = map snd (filter (\<lambda>cv. fst cv = label) (zip cols r))"

definition row_getitem :: "string list \<Rightarrow> 'v list \<Rightarrow> string \<Rightarrow> exn + 'v item" where
  "row_getitem cols r label =
     (case cells cols r label of
        [] \<Rightarrow> Inl (KeyError [label])
      | [v] \<Rightarrow> Inr (Scalar v)
      | vs \<Rightarrow> Inr (Series vs))"

text \<open>\<^verbatim>\<open>df[label] = values\<close>: a label the frame has keeps its place (every column that
  carries it takes the values), a new label is added as the last column.\<close>

definition setitem :: "string \<Rightarrow> 'v list \<Rightarrow> 'v dataframe \<Rightarrow> 'v dataframe" where
  "setitem label vals df =
     (if label \<in> set (columns df) then
        df\<lparr>rows := map (\<lambda>(r, v). map (\<lambda>(c, x). if c = label then v else x) (zip (columns df) r))
                      (zip (rows df) vals)\<rparr>
      else
        df\<lparr>columns := columns df @ [label],
           rows := map (\<lambda>(r, v). r @ [v]) (zip (rows df) vals)\<rparr>)"

text \<open>\<^verbatim>\<open>df[[labels]]\<close>: the columns of each label, in the order of the labels;
  \<^verbatim>\<open>KeyError\<close> with the labels the frame does not have.\<close>

definition getitem_list :: "string list \<Rightarrow> 'v dataframe \<Rightarrow> exn + 'v dataframe" where
  "getitem_list labels df =
     (let missing = filter (\<lambda>l. l \<notin> set (columns df)) labels in
      if missing \<noteq> [] then Inl (KeyError missing)
      else Inr \<lparr>columns = concat (map (\<lambda>l. filter (\<lambda>c. c = l) (columns df)) labels),
                rows = map (\<lambda>r. concat (map (cells (columns df) r) labels)) (rows df)\<rparr>)"

section \<open>The environment\<close>

text \<open>
  What the store and the libraries answer. \<open>connect\<close> is the whole of
  \<^verbatim>\<open>connect(...)\<close> and \<^verbatim>\<open>conn.cursor()\<close>; the three cursor fields answer for the
  statement text last executed; \<open>geodesic\<close> is geopy's \<^verbatim>\<open>geodesic(p, q).meters\<close>;
  \<open>to_excel\<close> is the whole \<^verbatim>\<open>with pd.ExcelWriter(name, mode='w')\<close> block;
  \<open>utcoffset\<close> is the offset of the machine's time zone at a local time, which
  \<^verbatim>\<open>timestamp()\<close> of a naive \<^verbatim>\<open>datetime\<close> subtracts. \<open>None\<close> is a call that
  returns, \<open>Some e\<close> and \<open>Inl e\<close> one that raises \<open>e\<close>.

  Two answers of pandas are taken from here as well: \<open>pad_value\<close> is what
  \<^verbatim>\<open>pd.DataFrame\<close> fills short rows with, and \<open>apply_no_rows\<close> is what line 77 does
  on a frame without rows, where \<^verbatim>\<open>apply\<close> does not call the function row by row
  (\<open>None\<close>: an empty column is added).
\<close>

record 'v env =
  connect :: "exn option"
  cursor_execute :: "string \<Rightarrow> exn option"
  cursor_fetchall :: "string \<Rightarrow> exn + 'v list list"
  cursor_description :: "string \<Rightarrow> string list option"
  pad_value :: 'v
  geodesic :: "'v item \<times> 'v item \<Rightarrow> 'v item \<times> 'v item \<Rightarrow> exn + 'v"
  apply_no_rows :: "exn option"
  to_excel :: "string \<Rightarrow> 'v dataframe \<Rightarrow> exn option"
  cursor_close :: "exn option"
  conn_close :: "exn option"
  utcoffset :: "int \<Rightarrow> int"

text \<open>
  What a run leaves behind: the log records, the statements sent to the store, the files
  whose \<^verbatim>\<open>with\<close> block completed, the lines printed, and the handles whose
  \<^verbatim>\<open>close()\<close> returned. An \<open>ERROR\<close> record is its message prefix and the exception
  whose \<^verbatim>\<open>str\<close> follows it.
\<close>

datatype log_record = INFO string | ERROR string exn

datatype handle = Cursor | Connection

record 'v world =
  logged :: "log_record list"
  executed :: "string list"
  files :: "(string \<times> 'v dataframe) list"
  printed :: "string list"
  closed :: "handle list"

definition world0 :: "'v world" where
  "world0 = \<lparr>logged = [], executed = [], files = [], printed = [], closed = []\<rparr>"

definition logging_info :: "string \<Rightarrow> 'v world \<Rightarrow> 'v world" where
  "logging_info msg w = w\<lparr>logged := logged w @ [INFO msg]\<rparr>"

definition logging_error :: "string \<Rightarrow> exn \<Rightarrow> 'v world \<Rightarrow> 'v world" where
  "logging_error msg e w = w\<lparr>logged := logged w @ [ERROR msg e]\<rparr>"

section \<open>The script\<close>

subsection \<open>\<^verbatim>\<open>connect_to_database\<close> (lines 16 to 31)\<close>

definition connect_to_database :: "'v env \<Rightarrow> 'v world \<Rightarrow> (exn + unit) \<times> 'v world" where
  "connect_to_database env w =
     (case connect env of
        Some e \<Rightarrow> (Inl e, logging_error ''Failed to connect to the database: '' e w)
      | None \<Rightarrow> (Inr (), w))"

subsection \<open>\<^verbatim>\<open>calculate_distance\<close> (lines 33 to 35)\<close>

text \<open>The four row lookups are evaluated left to right, then the library is called.\<close>

definition calculate_distance ::
  "('v item \<times> 'v item \<Rightarrow> 'v item \<times> 'v item \<Rightarrow> exn + 'v) \<Rightarrow> string list \<Rightarrow> 'v list \<Rightarrow> exn + 'v" where
  "calculate_distance geo cols row =
     (case row_getitem cols row ''previous_latitude'' of
        Inl e \<Rightarrow> Inl e
      | Inr plat \<Rightarrow>
          (case row_getitem cols row ''previous_longitude'' of
             Inl e \<Rightarrow> Inl e
           | Inr plon \<Rightarrow>
               (case row_getitem cols row ''next_latitude'' of
                  Inl e \<Rightarrow> Inl e
                | Inr nlat \<Rightarrow>
                    (case row_getitem cols row ''next_longitude'' of
                       Inl e \<Rightarrow> Inl e
                     | Inr nlon \<Rightarrow> geo (plat, plon) (nlat, nlon)))))"

subsection \<open>One window: lines 61 to 89\<close>

text \<open>Line 47.\<close>

definition prepared_statement :: string where
  "prepared_statement = '' ''"

text \<open>Lines 62 and 63: \<^verbatim>\<open>int(d.timestamp())\<close> of a naive \<^verbatim>\<open>datetime\<close>.\<close>

definition unix_time :: "'v env \<Rightarrow> int \<Rightarrow> int" where
  "unix_time env d = d - utcoffset env d"

text \<open>Lines 66 to 68: a triple-quoted f-string, so the text starts with a line break and
  twelve blanks and ends with a line break and eight blanks.\<close>

definition execute_statement :: "int \<Rightarrow> int \<Rightarrow> string" where
  "execute_statement current_unix_time next_unix_time =
     CHR 0x0A # replicate 12 (CHR '' '') @ ''EXECUTE flight_analysis USING ''
       @ str_int current_unix_time @ '', '' @ str_int next_unix_time
       @ CHR 0x0A # replicate 8 (CHR '' '')"

text \<open>Lines 71 to 73. A cursor without a description has \<^verbatim>\<open>None\<close> there, and the
  comprehension over it raises \<^verbatim>\<open>TypeError\<close>.\<close>

definition run_query :: "'v env \<Rightarrow> string \<Rightarrow> exn + (string list \<times> 'v list list)" where
  "run_query env stmt =
     (case cursor_execute env stmt of
        Some e \<Rightarrow> Inl e
      | None \<Rightarrow>
          (case cursor_fetchall env stmt of
             Inl e \<Rightarrow> Inl e
           | Inr rws \<Rightarrow>
               (case cursor_description env stmt of
                  None \<Rightarrow> Inl TypeError
                | Some cols \<Rightarrow> Inr (cols, rws))))"

text \<open>Line 74, \<^verbatim>\<open>pd.DataFrame(rows, columns=columns)\<close>: rows are filled up to the longest
  one, and a width that is not the number of labels raises \<^verbatim>\<open>ValueError\<close>. Without rows
  the frame has the labels and no row.\<close>

definition DataFrame :: "'v env \<Rightarrow> 'v list list \<Rightarrow> string list \<Rightarrow> exn + 'v dataframe" where
  "DataFrame env rws cols =
     (if rws = [] then Inr \<lparr>columns = cols, rows = []\<rparr>
      else
        let width = foldr max (map length rws) 0 in
        if width \<noteq> length cols then Inl ValueError
        else Inr \<lparr>columns = cols,
                  rows = map (\<lambda>r. r @ replicate (width - length r) (pad_value env)) rws\<rparr>)"

text \<open>\<^verbatim>\<open>df.apply(f, axis=1)\<close> on a frame with rows calls \<open>f\<close> on each row in order;
  the first exception ends it.\<close>

fun apply_rows :: "('a \<Rightarrow> exn + 'b) \<Rightarrow> 'a list \<Rightarrow> exn + 'b list" where
  "apply_rows f [] = Inr []"
| "apply_rows f (x # xs) =
     (case f x of
        Inl e \<Rightarrow> Inl e
      | Inr y \<Rightarrow> (case apply_rows f xs of Inl e \<Rightarrow> Inl e | Inr ys \<Rightarrow> Inr (y # ys)))"

text \<open>Line 77. On a frame without rows pandas does not go through the rows, and what comes
  of the assignment is the environment's \<open>apply_no_rows\<close>. A frame with rows is taken
  row by row (also one without columns, which no query returns).\<close>

definition add_distance :: "'v env \<Rightarrow> 'v dataframe \<Rightarrow> exn + 'v dataframe" where
  "add_distance env df =
     (if rows df = [] then
        (case apply_no_rows env of
           Some e \<Rightarrow> Inl e
         | None \<Rightarrow> Inr (setitem ''between_coords_distance_m'' [] df))
      else
        (case apply_rows (calculate_distance (geodesic env) (columns df)) (rows df) of
           Inl e \<Rightarrow> Inl e
         | Inr ds \<Rightarrow> Inr (setitem ''between_coords_distance_m'' ds df)))"

text \<open>Line 78.\<close>

definition output_columns :: "string list" where
  "output_columns =
     [''icao24'', ''callsign'', ''null_start_time'', ''null_end_time'',
      ''time_of_previous_not_null_coords'', ''time_of_next_not_null_coords'',
      ''previous_latitude'', ''previous_longitude'', ''next_latitude'', ''next_longitude'',
      ''between_coords_distance_m'', ''null_duration_seconds'',
      ''between_coords_duration_seconds'', ''avg_nic'', ''min_nic'', ''max_nic'']"

text \<open>Lines 77 and 78 together: the projection of a query result.\<close>

definition project :: "'v env \<Rightarrow> 'v dataframe \<Rightarrow> exn + 'v dataframe" where
  "project env df =
     (case add_distance env df of
        Inl e \<Rightarrow> Inl e
      | Inr df' \<Rightarrow> getitem_list output_columns df')"

text \<open>Line 81.\<close>

definition general_file_name :: "'v env \<Rightarrow> int \<Rightarrow> int \<Rightarrow> string" where
  "general_file_name env current_date next_date =
     str_int (unix_time env current_date) @ ''-'' @ str_int (unix_time env next_date) @ ''_''
       @ strftime_Ymd current_date @ ''_to_'' @ strftime_Ymd next_date @ ''.xlsx''"

text \<open>Lines 71 to 83, the body of the \<^verbatim>\<open>try\<close>: the file name and the table written, or
  the exception that ended it.\<close>

definition window_result :: "'v env \<Rightarrow> int \<times> int \<Rightarrow> exn + (string \<times> 'v dataframe)" where
  "window_result env win =
     (case win of (current_date, next_date) \<Rightarrow>
        (case run_query env (execute_statement (unix_time env current_date)
                               (unix_time env next_date)) of
           Inl e \<Rightarrow> Inl e
         | Inr (cols, rws) \<Rightarrow>
             (case DataFrame env rws cols of
                Inl e \<Rightarrow> Inl e
              | Inr df \<Rightarrow>
                  (case project env df of
                     Inl e \<Rightarrow> Inl e
                   | Inr out \<Rightarrow>
                       (case to_excel env (general_file_name env current_date next_date) out of
                          Some e \<Rightarrow> Inl e
                        | None \<Rightarrow>
                            Inr (general_file_name env current_date next_date, out))))))"

text \<open>Lines 61 to 89: the statement is sent, then the window either leaves its file and two
  messages or one \<open>ERROR\<close> record.\<close>

definition window_body :: "'v env \<Rightarrow> int \<Rightarrow> int \<Rightarrow> 'v world \<Rightarrow> 'v world" where
  "window_body env current_date next_date w =
     (let w1 = w\<lparr>executed := executed w
                  @ [execute_statement (unix_time env current_date) (unix_time env next_date)]\<rparr>
      in case window_result env (current_date, next_date) of
           Inl e \<Rightarrow> logging_error ''Failed during SQL execution or file operation: '' e w1
         | Inr (name, out) \<Rightarrow>
             (logging_info (''Data written to '' @ name) (w1\<lparr>files := files w1 @ [(name, out)]\<rparr>))
               \<lparr>printed := printed w1 @ [''Data written to '' @ name]\<rparr>)"

subsection \<open>The loop: lines 58 to 60 and 91\<close>

text \<open>
  The loop runs while \<^verbatim>\<open>current_date < end_date\<close>. Line 60 is outside the
  \<^verbatim>\<open>try\<close>, so an overflow of the addition leaves the loop as an exception. The loop
  may run forever (with a \<open>delta\<close> of zero it does): the function has no value there.
\<close>

partial_function (option) window_loop ::
  "(int \<Rightarrow> int \<Rightarrow> 's \<Rightarrow> 's) \<Rightarrow> int \<Rightarrow> int \<Rightarrow> int \<Rightarrow> 's \<Rightarrow> (exn option \<times> 's) option" where
  "window_loop body current_date end_date delta st =
     (if current_date < end_date then
        (case datetime_add current_date delta of
           Inl e \<Rightarrow> Some (Some e, st)
         | Inr next_date \<Rightarrow>
             window_loop body next_date end_date delta (body current_date next_date st))
      else Some (None, st))"

declare window_loop.simps [code]

subsection \<open>\<^verbatim>\<open>main\<close> (lines 37 to 98)\<close>

text \<open>Lines 38 to 43. \<open>True\<close>: the run goes on.\<close>

definition connecting :: "'v env \<Rightarrow> 'v world \<Rightarrow> bool \<times> 'v world" where
  "connecting env w =
     (case connect_to_database env w of
        (Inl e, w') \<Rightarrow> (False, logging_error ''Could not establish database connection: '' e w')
      | (Inr u, w') \<Rightarrow> (True, logging_info ''Database connection established successfully.'' w'))"

text \<open>Lines 47 to 56. \<open>None\<close>: the run goes on. \<open>Some r\<close>: \<^verbatim>\<open>main\<close> ends here, with
  \<open>r = None\<close> by its \<^verbatim>\<open>return\<close> and with \<open>r = Some e\<close> by the exception of a
  \<^verbatim>\<open>close()\<close>, which nothing catches there.\<close>

definition preparing :: "'v env \<Rightarrow> 'v world \<Rightarrow> exn option option \<times> 'v world" where
  "preparing env w =
     (let w1 = w\<lparr>executed := executed w @ [prepared_statement]\<rparr> in
      case cursor_execute env prepared_statement of
        None \<Rightarrow> (None, logging_info ''SQL statement prepared and executed successfully.'' w1)
      | Some e \<Rightarrow>
          (let w2 = logging_error ''Failed to prepare the SQL statement: '' e w1 in
           case cursor_close env of
             Some e' \<Rightarrow> (Some (Some e'), w2)
           | None \<Rightarrow>
               (case conn_close env of
                  Some e' \<Rightarrow> (Some (Some e'), w2\<lparr>closed := closed w2 @ [Cursor]\<rparr>)
                | None \<Rightarrow> (Some None, w2\<lparr>closed := closed w2 @ [Cursor, Connection]\<rparr>))))"

text \<open>Lines 94 to 98.\<close>

definition closing :: "'v env \<Rightarrow> 'v world \<Rightarrow> 'v world" where
  "closing env w =
     (case cursor_close env of
        Some e \<Rightarrow> logging_error ''Failed to close database connection: '' e w
      | None \<Rightarrow>
          (case conn_close env of
             Some e \<Rightarrow> logging_error ''Failed to close database connection: '' e
                         (w\<lparr>closed := closed w @ [Cursor]\<rparr>)
           | None \<Rightarrow> w\<lparr>closed := closed w @ [Cursor, Connection]\<rparr>))"

text \<open>
  \<^verbatim>\<open>main\<close>, with the three module variables of lines 12 to 14 as arguments. The result
  is how \<^verbatim>\<open>main\<close> ended (\<open>None\<close>: it returned; \<open>Some e\<close>: \<open>e\<close> left it) and what
  the run left behind.
\<close>

definition main :: "'v env \<Rightarrow> int \<Rightarrow> int \<Rightarrow> int \<Rightarrow> (exn option \<times> 'v world) option" where
  "main env start_date end_date delta =
     (case connecting env world0 of
        (False, w) \<Rightarrow> Some (None, w)
      | (True, w) \<Rightarrow>
          (case preparing env w of
             (Some r, w') \<Rightarrow> Some (r, w')
           | (None, w') \<Rightarrow>
               (case window_loop (window_body env) start_date end_date delta w' of
                  None \<Rightarrow> None
                | Some (Some e, w'') \<Rightarrow> Some (Some e, w'')
                | Some (None, w'') \<Rightarrow> Some (None, closing env w''))))"

text \<open>Lines 12 to 14.\<close>

definition start_date :: int where
  "start_date = datetime 2023 1 1"

definition end_date :: int where
  "end_date = datetime 2024 1 1"

definition delta :: int where
  "delta = timedelta 1"

section \<open>The windows, as the specification describes them\<close>

text \<open>
  The specification's window iterator: windows \<open>[s + i * d, s + (i + 1) * d)\<close> for
  \<open>i\<close> below \<open>\<lceil>(e - s) / d\<rceil>\<close>. The count is computed in integers; lemma
  \<open>window_count_ceiling\<close> below relates it to the quotient.
\<close>

definition window_count :: "int \<Rightarrow> int \<Rightarrow> int \<Rightarrow> nat" where
  "window_count s e d = nat (- ((s - e) div d))"

definition windows :: "int \<Rightarrow> int \<Rightarrow> int \<Rightarrow> (int \<times> int) list" where
  "windows s e d = map (\<lambda>i. (s + int i * d, s + (int i + 1) * d)) [0..<window_count s e d]"

text \<open>A configuration the loop can walk: a positive stride, and every window bound a
  \<^verbatim>\<open>datetime\<close>.\<close>

definition valid_config :: "int \<Rightarrow> int \<Rightarrow> int \<Rightarrow> bool" where
  "valid_config s e d =
     (0 < d \<and> datetime_min \<le> s \<and> s + int (window_count s e d) * d \<le> datetime_max)"

text \<open>The loop body that only records the window it is given.\<close>

definition record_window :: "int \<Rightarrow> int \<Rightarrow> (int \<times> int) list \<Rightarrow> (int \<times> int) list" where
  "record_window current_date next_date ws = ws @ [(current_date, next_date)]"

section \<open>What a run is compared with\<close>

text \<open>The statement of a window, the files and the log records of a list of window results.\<close>

definition window_statement :: "'v env \<Rightarrow> int \<times> int \<Rightarrow> string" where
  "window_statement env win =
     execute_statement (unix_time env (fst win)) (unix_time env (snd win))"

fun written :: "(exn + 'a) list \<Rightarrow> 'a list" where
  "written [] = []"
| "written (Inl e # rs) = written rs"
| "written (Inr f # rs) = f # written rs"

fun failures :: "(exn + 'a) list \<Rightarrow> exn list" where
  "failures [] = []"
| "failures (Inl e # rs) = e # failures rs"
| "failures (Inr f # rs) = failures rs"

definition window_record :: "exn + (string \<times> 'v dataframe) \<Rightarrow> log_record" where
  "window_record r =
     (case r of
        Inl e \<Rightarrow> ERROR ''Failed during SQL execution or file operation: '' e
      | Inr f \<Rightarrow> INFO (''Data written to '' @ fst f))"

text \<open>The world in which the loop starts when lines 38 to 56 went well.\<close>

definition prepared_world :: "'v world" where
  "prepared_world =
     \<lparr>logged = [INFO ''Database connection established successfully.'',
                INFO ''SQL statement prepared and executed successfully.''],
      executed = [prepared_statement], files = [], printed = [], closed = []\<rparr>"

text \<open>The fifteen columns line 78 takes from the query result.\<close>

definition source_columns :: "string list" where
  "source_columns =
     [''icao24'', ''callsign'', ''null_start_time'', ''null_end_time'',
      ''time_of_previous_not_null_coords'', ''time_of_next_not_null_coords'',
      ''previous_latitude'', ''previous_longitude'', ''next_latitude'', ''next_longitude'',
      ''null_duration_seconds'', ''between_coords_duration_seconds'',
      ''avg_nic'', ''min_nic'', ''max_nic'']"

text \<open>A frame whose rows have one value per label, as \<^verbatim>\<open>pd.DataFrame\<close> builds them.\<close>

definition aligned :: "'v dataframe \<Rightarrow> bool" where
  "aligned df = list_all (\<lambda>r. length r = length (columns df)) (rows df)"

section \<open>Environments for concrete runs\<close>

text \<open>
  A stand-in for the distance on whole-number coordinates, and one that rejects a latitude
  beyond 90 degrees; both refuse a \<^verbatim>\<open>Series\<close>.
\<close>

definition taxicab :: "int item \<times> int item \<Rightarrow> int item \<times> int item \<Rightarrow> exn + int" where
  "taxicab p q =
     (case (p, q) of
        ((Scalar a, Scalar b), (Scalar c, Scalar d)) \<Rightarrow> Inr (\<bar>a - c\<bar> + \<bar>b - d\<bar>)
      | _ \<Rightarrow> Inl TypeError)"

definition strict_taxicab :: "int item \<times> int item \<Rightarrow> int item \<times> int item \<Rightarrow> exn + int" where
  "strict_taxicab p q =
     (case (p, q) of
        ((Scalar a, Scalar b), (Scalar c, Scalar d)) \<Rightarrow>
          (if 90 < \<bar>a\<bar> \<or> 90 < \<bar>c\<bar> then Inl ValueError else Inr (\<bar>a - c\<bar> + \<bar>b - d\<bar>))
      | _ \<Rightarrow> Inl TypeError)"

text \<open>One gap record, in the order of \<open>source_columns\<close>.\<close>

definition sample_row :: "int list" where
  "sample_row = [4921, 7, 100, 160, 90, 170, 40, - 73, 41, - 75, 60, 80, 8, 7, 9]"

text \<open>A machine on UTC where every call returns and every query gives the one record.\<close>

definition calm_env :: "int env" where
  "calm_env =
     \<lparr>connect = None,
      cursor_execute = (\<lambda>stmt. None),
      cursor_fetchall = (\<lambda>stmt. Inr [sample_row]),
      cursor_description = (\<lambda>stmt. Some source_columns),
      pad_value = 0,
      geodesic = taxicab,
      apply_no_rows = None,
      to_excel = (\<lambda>name df. None),
      cursor_close = None,
      conn_close = None,
      utcoffset = (\<lambda>d. 0)\<rparr>"

text \<open>What the projection makes of the one record, and two environments that fail: the
  query of the second day of 2023, and the preparation together with the cursor's
  \<^verbatim>\<open>close()\<close>.\<close>

definition sample_output :: "int dataframe" where
  "sample_output =
     \<lparr>columns = output_columns,
      rows = [[4921, 7, 100, 160, 90, 170, 40, - 73, 41, - 75, 3, 60, 80, 8, 7, 9]]\<rparr>"



text \<open>
  Three more inputs: a result in which the label \<open>icao24\<close> comes twice, a record whose
  previous longitude is 190 degrees, and a result without the column \<open>icao24\<close> whose
  record has a previous latitude of 91 degrees.
\<close>

definition twin_frame :: "int dataframe" where
  "twin_frame = \<lparr>columns = source_columns @ [''icao24''], rows = [sample_row @ [4922]]\<rparr>"

definition far_east_row :: "int list" where
  "far_east_row = [4921, 7, 100, 160, 90, 170, 40, 190, 41, - 75, 60, 80, 8, 7, 9]"

definition anonymous_frame :: "int dataframe" where
  "anonymous_frame =
     \<lparr>columns = tl source_columns,
      rows = [[7, 100, 160, 90, 170, 91, - 73, 41, - 75, 60, 80, 8, 7, 9]]\<rparr>"

text \<open>A store that refuses the connection, a machine one hour east of UTC, and a cursor
  whose \<^verbatim>\<open>close()\<close> raises.\<close>

definition offline_env :: "int env" where
  "offline_env = calm_env\<lparr>connect := Some (Raised ''refused'')\<rparr>"

definition east_env :: "int env" where
  "east_env = calm_env\<lparr>utcoffset := (\<lambda>d. 3600)\<rparr>"

definition sticky_env :: "int env" where
  "sticky_env = calm_env\<lparr>cursor_close := Some (Raised ''gone'')\<rparr>"

section \<open>The window loop\<close>

lemma window_count_0: "0 < d \<Longrightarrow> e \<le> s \<Longrightarrow> window_count s e d = 0"
  by (simp add: window_count_def pos_imp_zdiv_nonneg_iff)

lemma window_count_bounds:
  fixes s e d :: int
  assumes "0 < d"
  shows "e - s \<le> - ((s - e) div d) * d" and "- ((s - e) div d) * d < e - s + d"
proof -
  have eq: "s - e = d * ((s - e) div d) + (s - e) mod d" by simp
  have r: "0 \<le> (s - e) mod d" "(s - e) mod d < d" using assms by simp_all
  have m: "- ((s - e) div d) * d = - (d * ((s - e) div d))" by simp
  show "e - s \<le> - ((s - e) div d) * d" unfolding m using eq r by linarith
  show "- ((s - e) div d) * d < e - s + d" unfolding m using eq r by linarith
qed

lemma window_count_int:
  assumes "0 < d" "s < e"
  shows "int (window_count s e d) = - ((s - e) div d)" and "0 < window_count s e d"
proof -
  have "(s - e) div d < 0" using assms by (simp add: div_neg_pos_less0)
  then show "int (window_count s e d) = - ((s - e) div d)" "0 < window_count s e d"
    by (simp_all add: window_count_def)
qed

lemma window_count_ceiling:
  "window_count s e d = nat \<lceil>real_of_int (e - s) / real_of_int d\<rceil>"
proof -
  have "\<lceil>real_of_int (e - s) / real_of_int d\<rceil> = - ((- (e - s)) div d)"
    by (rule ceiling_divide_eq_div)
  then show ?thesis by (simp add: window_count_def)
qed

lemma window_count_Suc:
  assumes "0 < d" "s < e"
  shows "window_count s e d = Suc (window_count (s + d) e d)"
proof -
  have "s + d - e = (s - e) + 1 * d" by simp
  then have a: "(s + d - e) div d = (s - e) div d + 1"
    using assms(1) by (metis div_mult_self1 less_irrefl add.commute)
  have b: "(s - e) div d < 0"
    using assms by (simp add: div_neg_pos_less0)
  show ?thesis using a b by (simp add: window_count_def)
qed

lemma windows_Nil: "0 < d \<Longrightarrow> e \<le> s \<Longrightarrow> windows s e d = []"
  by (simp add: windows_def window_count_0)

lemma windows_Cons:
  assumes "0 < d" "s < e"
  shows "windows s e d = (s, s + d) # windows (s + d) e d"
proof -
  have "[0..<Suc n] = 0 # map Suc [0..<n]" for n
    by (simp add: upt_conv_Cons map_Suc_upt del: upt_Suc)
  then show ?thesis
    using window_count_Suc[OF assms]
    by (simp add: windows_def comp_def algebra_simps del: upt_Suc)
qed

lemma length_windows: "length (windows s e d) = window_count s e d"
  by (simp add: windows_def)

lemma nth_windows:
  "i < window_count s e d \<Longrightarrow> windows s e d ! i = (s + int i * d, s + (int i + 1) * d)"
  by (simp add: windows_def)

lemma window_loop_fold:
  assumes "0 < d"
  shows "datetime_min \<le> cur \<Longrightarrow> cur + int (window_count cur e d) * d \<le> datetime_max \<Longrightarrow>
     window_loop body cur e d st = Some (None, fold (\<lambda>(c, n). body c n) (windows cur e d) st)"
proof (induction "window_count cur e d" arbitrary: cur st)
  case 0
  have "e \<le> cur"
  proof (rule ccontr)
    assume "\<not> e \<le> cur"
    then have "window_count cur e d = Suc (window_count (cur + d) e d)"
      using assms by (simp add: window_count_Suc)
    with 0 show False by simp
  qed
  then show ?case
    using assms by (subst window_loop.simps) (simp add: windows_Nil)
next
  case (Suc k)
  have lt: "cur < e"
  proof (rule ccontr)
    assume "\<not> cur < e"
    then have "window_count cur e d = 0" using assms by (simp add: window_count_0)
    with Suc show False by simp
  qed
  have k: "k = window_count (cur + d) e d"
    using Suc.hyps(2) window_count_Suc[OF assms lt] by simp
  have bound: "cur + d + int k * d \<le> datetime_max"
    using Suc.prems(2) Suc.hyps(2)[symmetric] by (simp add: algebra_simps)
  have "0 \<le> int k * d" using assms by simp
  then have "cur + d \<le> datetime_max" using bound by linarith
  then have add: "datetime_add cur d = Inr (cur + d)"
    using Suc.prems(1) assms by (simp add: datetime_add_def)
  have "window_loop body (cur + d) e d (body cur (cur + d) st) =
      Some (None, fold (\<lambda>(c, n). body c n) (windows (cur + d) e d) (body cur (cur + d) st))"
    using Suc.hyps(1)[OF k] Suc.prems(1) assms bound k by simp
  then show ?case
    using lt add by (subst window_loop.simps) (simp add: windows_Cons[OF assms lt])
qed

lemma fold_record_window: "fold (\<lambda>(c, n). record_window c n) ws acc = acc @ ws"
  by (induction ws arbitrary: acc) (auto simp: record_window_def)

lemma windows_cover:
  assumes d: "0 < d" and t: "s \<le> t" "t < e"
  shows "\<exists>!i. i < window_count s e d \<and> s + int i * d \<le> t \<and> t < s + (int i + 1) * d"
proof -
  define q where "q = (t - s) div d"
  have q0: "0 \<le> q" using d t by (simp add: q_def pos_imp_zdiv_nonneg_iff)
  have eq: "t - s = d * q + (t - s) mod d" by (simp add: q_def)
  have r: "0 \<le> (t - s) mod d" "(t - s) mod d < d" using d by simp_all
  have qd: "q * d = d * q" by simp
  have lo: "s + q * d \<le> t" unfolding qd using eq r by linarith
  have qd1: "(q + 1) * d = d * q + d" by (simp add: algebra_simps)
  have hi: "t < s + (q + 1) * d" unfolding qd1 using eq r by linarith
  have se: "s < e" using t by simp
  have c: "int (window_count s e d) = - ((s - e) div d)"
    using window_count_int(1)[OF d se] .
  have "e - s \<le> int (window_count s e d) * d"
    unfolding c by (rule window_count_bounds(1)[OF d])
  then have "q * d < int (window_count s e d) * d"
    using lo t(2) by linarith
  then have qc: "q < int (window_count s e d)"
    using d by (simp add: mult_less_cancel_right)
  show ?thesis
  proof (rule ex1I[of _ "nat q"])
    show "nat q < window_count s e d \<and> s + int (nat q) * d \<le> t \<and> t < s + (int (nat q) + 1) * d"
      using q0 qc lo hi by simp
  next
    fix i
    assume i: "i < window_count s e d \<and> s + int i * d \<le> t \<and> t < s + (int i + 1) * d"
    have "(t - s) div d = int i"
    proof (rule int_div_pos_eq)
      show "t - s = d * int i + (t - s - int i * d)" by simp
      show "0 \<le> t - s - int i * d" using i by simp
      show "t - s - int i * d < d" using i by (simp add: algebra_simps)
    qed
    then show "i = nat q" by (simp add: q_def)
  qed
qed

lemma windows_start_before_end:
  assumes d: "0 < d" and i: "i < window_count s e d"
  shows "s + int i * d < e"
proof -
  have se: "s < e"
  proof (rule ccontr)
    assume "\<not> s < e"
    then have "window_count s e d = 0" using d by (simp add: window_count_0)
    with i show False by simp
  qed
  have c: "int (window_count s e d) = - ((s - e) div d)"
    using window_count_int(1)[OF d se] .
  have "int i + 1 \<le> int (window_count s e d)" using i by simp
  then have "(int i + 1) * d \<le> int (window_count s e d) * d"
    using d by (simp add: mult_right_mono)
  then show ?thesis
    using window_count_bounds(2)[OF d, of s e] c by (simp add: algebra_simps)
qed

lemma windows_ascending:
  assumes "0 < d"
  shows "sorted_wrt (\<lambda>a b. snd a \<le> fst b) (windows s e d)"
proof -
  have "s + (int i + 1) * d \<le> s + int j * d" if "i < j" for i j :: nat
  proof -
    have "int i + 1 \<le> int j" using that by simp
    then have "(int i + 1) * d \<le> int j * d" using assms by (simp add: mult_right_mono)
    then show ?thesis by simp
  qed
  then show ?thesis
    by (simp add: sorted_wrt_iff_nth_less length_windows nth_windows)
qed

text \<open>
  Claim C1. For a valid configuration with \<open>s < e\<close> the loop ends without an exception
  and the windows it visits are, in order, \<open>[s + i * d, s + (i + 1) * d)\<close> for
  \<open>i\<close> below \<open>\<lceil>(e - s) / d\<rceil>\<close>: the first starts at \<open>s\<close>, each ends one
  stride after its start, each starts where the one before ends, a window ends before any
  later one starts, every start is before \<open>e\<close>, and every instant of \<open>[s, e)\<close>
  lies in exactly one window.
\<close>

theorem window_iteration:
  assumes "valid_config s e d" and "s < e"
  shows "window_loop record_window s e d [] = Some (None, windows s e d)
    \<and> length (windows s e d) = nat \<lceil>real_of_int (e - s) / real_of_int d\<rceil>
    \<and> fst (hd (windows s e d)) = s
    \<and> (\<forall>i<length (windows s e d).
           snd (windows s e d ! i) = fst (windows s e d ! i) + d \<and> fst (windows s e d ! i) < e)
    \<and> (\<forall>i. Suc i < length (windows s e d) \<longrightarrow>
           fst (windows s e d ! Suc i) = snd (windows s e d ! i))
    \<and> sorted_wrt (\<lambda>a b. snd a \<le> fst b) (windows s e d)
    \<and> (\<forall>t. s \<le> t \<and> t < e \<longrightarrow>
           (\<exists>!i. i < length (windows s e d) \<and>
                 fst (windows s e d ! i) \<le> t \<and> t < snd (windows s e d ! i)))"
proof -
  have d: "0 < d" and lo: "datetime_min \<le> s"
    and hi: "s + int (window_count s e d) * d \<le> datetime_max"
    using assms(1) by (simp_all add: valid_config_def)
  have 1: "window_loop record_window s e d [] = Some (None, windows s e d)"
    using window_loop_fold[OF d lo hi, of record_window "[]"] by (simp add: fold_record_window)
  have 2: "length (windows s e d) = nat \<lceil>real_of_int (e - s) / real_of_int d\<rceil>"
    by (simp add: length_windows window_count_ceiling)
  have 3: "fst (hd (windows s e d)) = s"
    by (simp add: windows_Cons[OF d assms(2)])
  have 4: "\<forall>i<length (windows s e d).
           snd (windows s e d ! i) = fst (windows s e d ! i) + d \<and> fst (windows s e d ! i) < e"
    using windows_start_before_end[OF d]
    by (simp add: length_windows nth_windows algebra_simps)
  have 5: "\<forall>i. Suc i < length (windows s e d) \<longrightarrow>
           fst (windows s e d ! Suc i) = snd (windows s e d ! i)"
    by (simp add: length_windows nth_windows algebra_simps)
  have 6: "\<forall>t. s \<le> t \<and> t < e \<longrightarrow>
           (\<exists>!i. i < length (windows s e d) \<and>
                 fst (windows s e d ! i) \<le> t \<and> t < snd (windows s e d ! i))"
  proof (intro allI impI)
    fix t assume t: "s \<le> t \<and> t < e"
    have "\<exists>!i. i < window_count s e d \<and> s + int i * d \<le> t \<and> t < s + (int i + 1) * d"
      using windows_cover[OF d] t by blast
    then show "\<exists>!i. i < length (windows s e d) \<and>
                 fst (windows s e d ! i) \<le> t \<and> t < snd (windows s e d ! i)"
      by (simp add: length_windows nth_windows cong: conj_cong)
  qed
  have 7: "sorted_wrt (\<lambda>a b. snd a \<le> fst b) (windows s e d)"
    by (rule windows_ascending[OF d])
  from 1 2 3 4 5 6 7 show ?thesis by blast
qed

theorem window_iteration_witness:
  "window_loop record_window 1672531200 1672704000 86400 []
     = Some (None, [(1672531200, 1672617600), (1672617600, 1672704000)])
   \<and> length (windows 1672531200 1672704000 86400) = 2"
proof -
  have v: "valid_config 1672531200 1672704000 86400"
    by (simp add: valid_config_def window_count_def datetime_min_def datetime_max_def)
  have w: "windows 1672531200 1672704000 86400
             = [(1672531200, 1672617600), (1672617600, 1672704000)]"
    by code_simp
  show ?thesis
    using window_iteration[OF v] w by simp
qed

section \<open>A run of \<^verbatim>\<open>main\<close>\<close>

lemma window_body_executed:
  "executed (window_body env c n w) = executed w @ [window_statement env (c, n)]"
  by (simp add: window_body_def window_statement_def logging_info_def logging_error_def Let_def
      split: sum.split prod.split)

lemma window_body_files:
  "files (window_body env c n w) = files w @ written [window_result env (c, n)]"
  by (cases "window_result env (c, n)")
     (auto simp: window_body_def logging_info_def logging_error_def Let_def)

lemma window_body_logged:
  "logged (window_body env c n w) = logged w @ [window_record (window_result env (c, n))]"
  by (cases "window_result env (c, n)")
     (auto simp: window_body_def window_record_def logging_info_def logging_error_def Let_def)

lemma window_body_printed:
  "printed (window_body env c n w)
     = printed w @ map (\<lambda>f. ''Data written to '' @ fst f) (written [window_result env (c, n)])"
  by (cases "window_result env (c, n)")
     (auto simp: window_body_def logging_info_def logging_error_def Let_def)

lemma window_body_closed: "closed (window_body env c n w) = closed w"
  by (cases "window_result env (c, n)")
     (auto simp: window_body_def logging_info_def logging_error_def Let_def)

lemma written_append: "written (rs @ rs') = written rs @ written rs'"
  by (induction rs rule: written.induct) simp_all

lemma failures_append: "failures (rs @ rs') = failures rs @ failures rs'"
  by (induction rs rule: failures.induct) simp_all


lemma fold_window_body:
  "executed (fold (\<lambda>(c, n). window_body env c n) ws w)
      = executed w @ map (window_statement env) ws
   \<and> files (fold (\<lambda>(c, n). window_body env c n) ws w)
      = files w @ written (map (window_result env) ws)
   \<and> logged (fold (\<lambda>(c, n). window_body env c n) ws w)
      = logged w @ map window_record (map (window_result env) ws)
   \<and> printed (fold (\<lambda>(c, n). window_body env c n) ws w)
      = printed w @ map (\<lambda>f. ''Data written to '' @ fst f) (written (map (window_result env) ws))
   \<and> closed (fold (\<lambda>(c, n). window_body env c n) ws w) = closed w"
proof (induction ws arbitrary: w)
  case Nil
  show ?case by simp
next
  case (Cons win ws)
  obtain c n where win: "win = (c, n)" by (cases win)
  show ?case
    using Cons.IH[of "window_body env c n w"]
    by (cases "window_result env (c, n)")
       (simp_all add: win window_body_executed window_body_files window_body_logged
          window_body_printed window_body_closed)
qed

lemma connecting_ok:
  "connect env = None \<Longrightarrow>
   connecting env world0
     = (True, world0\<lparr>logged := [INFO ''Database connection established successfully.'']\<rparr>)"
  by (simp add: connecting_def connect_to_database_def logging_info_def world0_def)

lemma preparing_ok:
  "cursor_execute env prepared_statement = None \<Longrightarrow>
   preparing env (world0\<lparr>logged := [INFO ''Database connection established successfully.'']\<rparr>)
     = (None, prepared_world)"
  by (simp add: preparing_def logging_info_def world0_def prepared_world_def)

lemma main_run:
  assumes "connect env = None" "cursor_execute env prepared_statement = None"
    and "valid_config s e d"
  shows "main env s e d
           = Some (None, closing env (fold (\<lambda>(c, n). window_body env c n) (windows s e d)
                                        prepared_world))"
proof -
  have d: "0 < d" and lo: "datetime_min \<le> s"
    and hi: "s + int (window_count s e d) * d \<le> datetime_max"
    using assms(3) by (simp_all add: valid_config_def)
  show ?thesis
    by (simp add: main_def connecting_ok[OF assms(1)] preparing_ok[OF assms(2)]
        window_loop_fold[OF d lo hi, of "window_body env" prepared_world])
qed

lemma closing_keeps:
  "executed (closing env w) = executed w \<and> files (closing env w) = files w
   \<and> printed (closing env w) = printed w"
  by (simp add: closing_def logging_error_def split: option.split)


lemma valid_config_days_2023:
  "valid_config 1672531200 1672704000 86400" "valid_config 1672531200 1672790400 86400"
  by (simp_all add: valid_config_def window_count_def datetime_min_def datetime_max_def)




lemma window_loop_invariant:
  assumes run: "window_loop body cur e d st = Some y"
    and init: "P st" and step: "\<And>c n x. P x \<Longrightarrow> P (body c n x)"
  shows "P (snd y)"
proof -
  have "b = body \<longrightarrow> P x \<longrightarrow> P (snd z)" if "window_loop b c0 e0 d0 x = Some z" for b c0 e0 d0 x z
  proof (rule window_loop.raw_induct[where P = "\<lambda>b c0 e0 d0 x z. b = body \<longrightarrow> P x \<longrightarrow> P (snd z)",
        OF _ that], intro impI)
    fix f b c0 e0 d0 x z
    assume 1: "\<And>c1 e1 d1 x1 b1 y1. f c1 e1 d1 x1 b1 = Some y1 \<Longrightarrow> c1 = body \<longrightarrow> P b1 \<longrightarrow> P (snd y1)"
      "(if c0 < e0
      then case datetime_add c0 d0 of Inl e \<Rightarrow> Some (Some e, x)
           | Inr next_date \<Rightarrow> f b next_date e0 d0 (b c0 next_date x)
      else Some (None, x)) = Some z"
    show "b = body \<Longrightarrow> P x \<Longrightarrow> P (snd z)"
    proof -
      assume b: "b = body" and x: "P x"
      show "P (snd z)"
      proof (cases "c0 < e0")
        case False
        with 1(2) x show ?thesis by auto
      next
        case True
        show ?thesis
        proof (cases "datetime_add c0 d0")
          case (Inl ex)
          with 1(2) True x show ?thesis by auto
        next
          case (Inr nxt)
          with 1(2) True have "f b nxt e0 d0 (b c0 nxt x) = Some z" by simp
          from 1(1)[OF this] b step[OF x] show ?thesis by simp
        qed
      qed
    qed
  qed
  with run init show ?thesis by blast
qed

lemma calm_env_ready:
  "connect calm_env = None" "cursor_execute calm_env prepared_statement = None"
  by (simp_all add: calm_env_def)

lemma preparing_executed:
  "executed (snd (preparing env w)) = executed w @ [prepared_statement]"
  by (simp add: preparing_def logging_info_def logging_error_def Let_def split: option.split)

lemma main_executed_first:
  fixes env :: "'v env"
  assumes "connect env = None" and "main env s e d = Some (r, w')"
  shows "\<exists>rest. executed w' = prepared_statement # rest"
proof -
  let ?w1 = "world0\<lparr>logged := [INFO ''Database connection established successfully.'']\<rparr>"
  obtain x w2 where p: "preparing env ?w1 = (x, w2)" by (cases "preparing env ?w1")
  have w2: "executed w2 = [prepared_statement]"
    using preparing_executed[of env ?w1] p by (simp add: world0_def)
  show ?thesis
  proof (cases x)
    case (Some r')
    with assms p w2 show ?thesis
      by (simp add: main_def connecting_ok)
  next
    case None
    show ?thesis
    proof (cases "window_loop (window_body env) s e d w2")
      case None
      with assms p \<open>x = None\<close> show ?thesis by (simp add: main_def connecting_ok)
    next
      case (Some y)
      have inv: "\<exists>rest. executed (snd y) = prepared_statement # rest"
      proof (rule window_loop_invariant[OF Some, where P = "\<lambda>w::'v world. \<exists>rest. executed w = prepared_statement # rest"])
        show "\<exists>rest. executed w2 = prepared_statement # rest" using w2 by simp
      next
        fix c n and v :: "'v world"
        assume "\<exists>rest. executed v = prepared_statement # rest"
        then show "\<exists>rest. executed (window_body env c n v) = prepared_statement # rest"
          by (auto simp: window_body_executed)
      qed
      obtain r2 w3 where y: "y = (r2, w3)" by (cases y)
      show ?thesis
        using assms p \<open>x = None\<close> Some y inv closing_keeps[of env w3]
        by (cases r2) (auto simp: main_def connecting_ok)
    qed
  qed
qed

text \<open>
  Claim C10. The statement of the preparation stage is the one-blank string of line 47,
  whatever the environment and the configuration: the stage sends exactly it, and in every
  run that got its connection and ended, it is the first statement the store received.
\<close>

theorem preparation_statement_is_blank:
  "prepared_statement = '' ''
   \<and> executed (snd (preparing env w)) = executed w @ ['' '']
   \<and> (connect env = None \<longrightarrow> main env s e d = Some (r, w') \<longrightarrow>
        (\<exists>rest. executed w' = '' '' # rest))"
  using preparing_executed[of env w] main_executed_first[of env s e d r w']
  by (simp add: prepared_statement_def)

theorem preparation_statement_is_blank_witness:
  "\<exists>w rest. main calm_env 1672531200 1672704000 86400 = Some (None, w)
     \<and> executed w = '' '' # rest"
proof -
  obtain w where w: "main calm_env 1672531200 1672704000 86400 = Some (None, w)"
    using main_run[OF calm_env_ready valid_config_days_2023(1)] by blast
  show ?thesis
    using preparation_statement_is_blank[of calm_env world0 1672531200 1672704000 86400 None w]
      w calm_env_ready(1) by blast
qed




section \<open>Statements and file names\<close>

lemma window_statement_text:
  "window_statement env win
     = CHR 0x0A # replicate 12 (CHR '' '') @ ''EXECUTE flight_analysis USING ''
         @ str_int (unix_time env (fst win)) @ '', '' @ str_int (unix_time env (snd win))
         @ CHR 0x0A # replicate 8 (CHR '' '')"
  by (simp add: window_statement_def execute_statement_def)

lemma digit_chars_distinct: "distinct ''0123456789''"
  by simp

lemma digit_char_inj:
  assumes "0 \<le> a" "a < 10" "0 \<le> b" "b < 10"
    and "''0123456789'' ! nat a = ''0123456789'' ! nat b"
  shows "a = (b::int)"
proof -
  have "nat a < length ''0123456789''" "nat b < length ''0123456789''"
    using assms by simp_all
  then have "nat a = nat b"
    using assms(5) digit_chars_distinct by (simp only: nth_eq_iff_index_eq)
  with assms show ?thesis by simp
qed

lemma str_digits_chars: "set (str_digits n) \<subseteq> set ''0123456789''"
proof (induction n rule: str_digits.induct)
  case (1 n)
  show ?case
  proof (cases "n < 10")
    case True
    have "nat n < length ''0123456789''" using True by simp
    then have "''0123456789'' ! nat n \<in> set ''0123456789''" by (rule nth_mem)
    then show ?thesis using True by (subst str_digits.simps) simp
  next
    case False
    have "nat (n mod 10) < length ''0123456789''" by simp
    then have m: "''0123456789'' ! nat (n mod 10) \<in> set ''0123456789''" by (rule nth_mem)
    have "set (str_digits (n div 10)) \<subseteq> set ''0123456789''" using 1 False by simp
    with m False show ?thesis by (subst str_digits.simps) simp
  qed
qed

lemma length_str_digits: "length (str_digits n) = 1 \<longleftrightarrow> n < 10"
proof (cases "n < 10")
  case True
  then show ?thesis by (subst str_digits.simps) simp
next
  case False
  have "str_digits (n div 10) \<noteq> []"
    by (subst str_digits.simps) simp
  then have "length (str_digits (n div 10) @ [''0123456789'' ! nat (n mod 10)]) \<noteq> 1"
    by simp
  with False show ?thesis by (subst str_digits.simps) simp
qed

lemma str_digits_inj:
  "0 \<le> n \<Longrightarrow> 0 \<le> m \<Longrightarrow> str_digits n = str_digits m \<Longrightarrow> n = m"
proof (induction n arbitrary: m rule: str_digits.induct)
  case (1 n)
  have len: "n < 10 \<longleftrightarrow> m < 10"
    using length_str_digits[of n] length_str_digits[of m] "1.prems"(3) by simp
  show ?case
  proof (cases "n < 10")
    case True
    with len have m: "m < 10" by simp
    have "[''0123456789'' ! nat n] = [''0123456789'' ! nat m]"
      using "1.prems"(3) True m by (simp add: str_digits.simps[of n] str_digits.simps[of m])
    then show ?thesis
      using digit_char_inj[of n m] "1.prems"(1,2) True m by simp
  next
    case False
    with len have m: "\<not> m < 10" by simp
    have "str_digits (n div 10) @ [''0123456789'' ! nat (n mod 10)]
        = str_digits (m div 10) @ [''0123456789'' ! nat (m mod 10)]"
      using "1.prems"(3) False m by (simp add: str_digits.simps[of n] str_digits.simps[of m])
    then have q: "str_digits (n div 10) = str_digits (m div 10)"
      and r: "''0123456789'' ! nat (n mod 10) = ''0123456789'' ! nat (m mod 10)"
      by simp_all
    have "n div 10 = m div 10"
      using "1.IH"[OF False _ _ q] "1.prems"(1,2) by (simp add: pos_imp_zdiv_nonneg_iff)
    moreover have "n mod 10 = m mod 10"
      using digit_char_inj[of "n mod 10" "m mod 10"] r by simp
    ultimately show ?thesis
      by (metis mult_div_mod_eq)
  qed
qed

lemma str_int_inj: "str_int a = str_int b \<Longrightarrow> a = b"
proof -
  assume eq: "str_int a = str_int b"
  have nd: "CHR ''-'' \<notin> set (str_digits n)" for n
    using str_digits_chars[of n] by auto
  have ne: "str_digits n \<noteq> []" for n
    by (subst str_digits.simps) simp
  have hd: "hd (str_digits n) \<noteq> CHR ''-''" for n
    using nd[of n] ne[of n] by (cases "str_digits n") auto
  show "a = b"
  proof (cases "a < 0")
    case True
    show ?thesis
    proof (cases "b < 0")
      case True
      with \<open>a < 0\<close> eq have "str_digits (- a) = str_digits (- b)" by (simp add: str_int_def)
      then have "- a = - b" using True \<open>a < 0\<close> by (intro str_digits_inj) simp_all
      then show ?thesis by simp
    next
      case False
      with True eq have "CHR ''-'' # str_digits (- a) = str_digits b" by (simp add: str_int_def)
      with hd[of b] show ?thesis by (metis list.sel(1))
    qed
  next
    case False
    show ?thesis
    proof (cases "b < 0")
      case True
      with False eq have "str_digits a = CHR ''-'' # str_digits (- b)" by (simp add: str_int_def)
      with hd[of a] show ?thesis by (metis list.sel(1))
    next
      case b: False
      with False eq have "str_digits a = str_digits b" by (simp add: str_int_def)
      then show ?thesis using False b by (intro str_digits_inj) simp_all
    qed
  qed
qed

lemma str_int_no_comma: "CHR '','' \<notin> set (str_int a)"
  using str_digits_chars[of a] str_digits_chars[of "- a"] by (auto simp: str_int_def)

lemma split_at_first:
  "xs @ c # ys = xs' @ c # ys' \<Longrightarrow> c \<notin> set xs \<Longrightarrow> c \<notin> set xs' \<Longrightarrow> xs = xs' \<and> ys = ys'"
proof (induction xs arbitrary: xs')
  case Nil
  then show ?case by (cases xs') auto
next
  case (Cons x xs)
  then show ?case by (cases xs') auto
qed

lemma execute_statement_inj:
  assumes "execute_statement a b = execute_statement a' b'"
  shows "a = a' \<and> b = b'"
proof -
  have "str_int a @ CHR '','' # (CHR '' '' # str_int b @ CHR 0x0A # replicate 8 (CHR '' ''))
      = str_int a' @ CHR '','' # (CHR '' '' # str_int b' @ CHR 0x0A # replicate 8 (CHR '' ''))"
    using assms by (simp add: execute_statement_def)
  from split_at_first[OF this str_int_no_comma str_int_no_comma]
  have "str_int a = str_int a'" and "str_int b = str_int b'" by simp_all
  then show ?thesis by (simp add: str_int_inj)
qed

text \<open>
  Claim C2, as amended. The script has one way to hand the window to the store: line 67
  writes both epoch values, in decimal, into the statement text, and \<^verbatim>\<open>cursor.execute\<close>
  receives that text and nothing else. In a run that got through the preparation, the
  statements sent are the blank one and then, window by window, the text with that window's
  two values in it; two windows have the same text only if they have the same two values.
\<close>

theorem statement_text_carries_the_values:
  assumes "connect env = None" and "cursor_execute env prepared_statement = None"
    and "valid_config s e d"
  shows "\<exists>w. main env s e d = Some (None, w)
     \<and> executed w = prepared_statement # map (window_statement env) (windows s e d)
     \<and> (\<forall>win. window_statement env win
           = CHR 0x0A # replicate 12 (CHR '' '') @ ''EXECUTE flight_analysis USING ''
               @ str_int (unix_time env (fst win)) @ '', '' @ str_int (unix_time env (snd win))
               @ CHR 0x0A # replicate 8 (CHR '' ''))
     \<and> (\<forall>win win'. window_statement env win = window_statement env win' \<longrightarrow>
           unix_time env (fst win) = unix_time env (fst win')
           \<and> unix_time env (snd win) = unix_time env (snd win'))"
proof -
  have inj: "\<forall>win win'. window_statement env win = window_statement env win' \<longrightarrow>
           unix_time env (fst win) = unix_time env (fst win')
           \<and> unix_time env (snd win) = unix_time env (snd win')"
    using execute_statement_inj by (simp add: window_statement_def)
  let ?w = "fold (\<lambda>(c, n). window_body env c n) (windows s e d) prepared_world"
  have "main env s e d = Some (None, closing env ?w)"
    using main_run[OF assms] .
  moreover have "executed (closing env ?w)
                   = prepared_statement # map (window_statement env) (windows s e d)"
    using fold_window_body[of env "windows s e d" prepared_world] closing_keeps[of env ?w]
    by (simp add: prepared_world_def)
  ultimately show ?thesis
    using window_statement_text[of env] inj by blast
qed

lemma calm_env_statements:
  "map (window_statement calm_env) (windows 1672531200 1672704000 86400)
     = [CHR 0x0A # ''            EXECUTE flight_analysis USING 1672531200, 1672617600''
          @ CHR 0x0A # ''        '',
        CHR 0x0A # ''            EXECUTE flight_analysis USING 1672617600, 1672704000''
          @ CHR 0x0A # ''        '']"
  by code_simp

theorem statement_text_carries_the_values_witness:
  "\<exists>w. main calm_env 1672531200 1672704000 86400 = Some (None, w)
     \<and> executed w
         = ['' '',
            CHR 0x0A # ''            EXECUTE flight_analysis USING 1672531200, 1672617600''
              @ CHR 0x0A # ''        '',
            CHR 0x0A # ''            EXECUTE flight_analysis USING 1672617600, 1672704000''
              @ CHR 0x0A # ''        '']"
  using statement_text_carries_the_values[OF calm_env_ready valid_config_days_2023(1)]
  by (auto simp: calm_env_statements prepared_statement_def)

text \<open>
  Against claim C2 as stated: the statement text is not a constant. The first two days of
  2023 give two different texts.
\<close>

theorem statement_text_counterexample:
  "execute_statement 1672531200 1672617600 \<noteq> execute_statement 1672617600 1672704000"
  by code_simp



lemma str_int_2023:
  "str_int 1672531200 = ''1672531200''" "str_int 1672617600 = ''1672617600''"
  "str_int 1672704000 = ''1672704000''"
  "strftime_Ymd 1672531200 = ''2023-01-01''" "strftime_Ymd 1672617600 = ''2023-01-02''"
  "strftime_Ymd 1672704000 = ''2023-01-03''"
  by code_simp+





section \<open>The projection\<close>

lemma apply_rows_Inr:
  "apply_rows f xs = Inr ys \<Longrightarrow>
     length ys = length xs \<and> (\<forall>i<length xs. f (xs ! i) = Inr (ys ! i))"
proof (induction xs arbitrary: ys)
  case Nil
  then show ?case by simp
next
  case (Cons x xs)
  from Cons.prems obtain y ys' where y: "f x = Inr y" and r: "apply_rows f xs = Inr ys'"
    and ys: "ys = y # ys'"
    by (auto split: sum.splits)
  from Cons.IH[OF r] y ys show ?case
    by (auto simp: nth_Cons split: nat.split)
qed

lemma apply_rows_hd_Inl:
  "xs \<noteq> [] \<Longrightarrow> f (hd xs) = Inl e \<Longrightarrow> apply_rows f xs = Inl e"
  by (cases xs) simp_all

lemma columns_setitem:
  "columns (setitem key vs df) = (if key \<in> set (columns df) then columns df else columns df @ [key])"
  by (simp add: setitem_def)

lemma length_rows_setitem:
  "length vs = length (rows df) \<Longrightarrow> length (rows (setitem key vs df)) = length (rows df)"
  by (simp add: setitem_def)

lemma nth_rows_setitem:
  assumes "length vs = length (rows df)" and "i < length (rows df)"
  shows "rows (setitem key vs df) ! i
     = (if key \<in> set (columns df)
        then map (\<lambda>(c, x). if c = key then vs ! i else x) (zip (columns df) (rows df ! i))
        else rows df ! i @ [vs ! i])"
  using assms by (simp add: setitem_def)

lemma filter_labels_zip:
  "length cols = length r \<Longrightarrow>
     filter (\<lambda>c. c = l) cols = map fst (filter (\<lambda>cv. fst cv = l) (zip cols r))"
  by (induction cols r rule: list_induct2) simp_all

lemma length_cells:
  "length cols = length r \<Longrightarrow> length (cells cols r l) = count_list cols l"
  by (induction cols r rule: list_induct2) (simp_all add: cells_def)

lemma cells_Nil_iff:
  "length cols = length r \<Longrightarrow> cells cols r l = [] \<longleftrightarrow> l \<notin> set cols"
  by (induction cols r rule: list_induct2) (auto simp: cells_def)

lemma cells_replace_other:
  "l \<noteq> key \<Longrightarrow>
     cells cols (map (\<lambda>(c, x). if c = key then v else x) (zip cols r)) l = cells cols r l"
proof (induction cols arbitrary: r)
  case Nil
  show ?case by (simp add: cells_def)
next
  case (Cons c cols)
  then show ?case by (cases r) (auto simp: cells_def)
qed

lemma cells_replace_key:
  "cells cols (map (\<lambda>(c, x). if c = key then v else x) (zip cols r)) key
     = replicate (length (cells cols r key)) v"
proof (induction cols arbitrary: r)
  case Nil
  show ?case by (simp add: cells_def)
next
  case (Cons c cols)
  then show ?case by (cases r) (auto simp: cells_def)
qed

lemma cells_append_other:
  "length cols = length r \<Longrightarrow> l \<noteq> key \<Longrightarrow> cells (cols @ [key]) (r @ [v]) l = cells cols r l"
  by (simp add: cells_def)

lemma cells_append_key:
  "length cols = length r \<Longrightarrow> key \<notin> set cols \<Longrightarrow> cells (cols @ [key]) (r @ [v]) key = [v]"
  using cells_Nil_iff[of cols r key] by (simp add: cells_def)

lemma cells_block:
  assumes "length cols = length r"
  shows "cells (filter (\<lambda>c. c = l') cols) (cells cols r l') l
           = (if l' = l then cells cols r l else [])"
proof -
  let ?ps = "filter (\<lambda>cv. fst cv = l') (zip cols r)"
  have z: "zip (filter (\<lambda>c. c = l') cols) (cells cols r l') = ?ps"
    by (simp add: filter_labels_zip[OF assms] cells_def zip_map_fst_snd)
  have "filter (\<lambda>cv. fst cv = l) ?ps = (if l' = l then ?ps else [])"
    by (auto simp: filter_empty_conv)
  then show ?thesis
    by (simp add: cells_def[of "filter (\<lambda>c. c = l') cols"] z) (simp add: cells_def)
qed

lemma cells_getitem:
  assumes "length cols = length r"
  shows "cells (concat (map (\<lambda>l. filter (\<lambda>c. c = l) cols) ls)) (concat (map (cells cols r) ls)) l
           = concat (map (\<lambda>l'. if l' = l then cells cols r l else []) ls)"
proof (induction ls)
  case Nil
  show ?case by (simp add: cells_def)
next
  case (Cons l' ls)
  have len: "length (filter (\<lambda>c. c = l') cols) = length (cells cols r l')"
    by (simp add: filter_labels_zip[OF assms] cells_def)
  have split: "cells (A @ A') (B @ B') l = cells A B l @ cells A' B' l"
    if "length A = length B" for A A' and B B' :: "'a list"
    using that by (simp add: cells_def)
  show ?case
    using Cons.IH cells_block[OF assms, of l' l] by (simp add: split[OF len])
qed

lemma concat_single_hit:
  "distinct ls \<Longrightarrow> l \<in> set ls \<Longrightarrow> concat (map (\<lambda>l'. if l' = l then xs else []) ls) = xs"
proof (induction ls)
  case Nil
  then show ?case by simp
next
  case (Cons a ls)
  have "concat (map (\<lambda>l'. if l' = l then xs else []) ls) = []" if "l \<notin> set ls"
    using that by (induction ls) auto
  with Cons show ?case by auto
qed

lemma foldr_max_ge: "r \<in> set rws \<Longrightarrow> length r \<le> foldr max (map length rws) 0"
  by (induction rws) auto

lemma DataFrame_Inr:
  assumes "DataFrame env rws cols = Inr df"
  shows "columns df = cols" and "length (rows df) = length rws" and "aligned df"
    and "list_all (\<lambda>r. length r = length cols) rws \<longrightarrow> rows df = rws"
proof -
  show "columns df = cols" "length (rows df) = length rws"
    using assms by (auto simp: DataFrame_def Let_def split: if_splits)
  show "aligned df"
  proof (cases "rws = []")
    case True
    with assms show ?thesis by (auto simp: DataFrame_def aligned_def)
  next
    case False
    with assms have w: "foldr max (map length rws) 0 = length cols"
      and df: "df = \<lparr>columns = cols,
                 rows = map (\<lambda>r. r @ replicate (length cols - length r) (pad_value env)) rws\<rparr>"
      by (auto simp: DataFrame_def Let_def split: if_splits)
    have "length r \<le> length cols" if "r \<in> set rws" for r
      using foldr_max_ge[OF that] w by simp
    then show ?thesis
      by (auto simp: df aligned_def list_all_iff)
  qed
  show "list_all (\<lambda>r. length r = length cols) rws \<longrightarrow> rows df = rws"
  proof
    assume a: "list_all (\<lambda>r. length r = length cols) rws"
    show "rows df = rws"
    proof (cases "rws = []")
      case True
      with assms show ?thesis by (auto simp: DataFrame_def)
    next
      case False
      with assms have df: "rows df
          = map (\<lambda>r. r @ replicate (foldr max (map length rws) 0 - length r) (pad_value env)) rws"
        and w: "foldr max (map length rws) 0 = length cols"
        by (auto simp: DataFrame_def Let_def split: if_splits)
      have "map (\<lambda>r. r @ replicate (length cols - length r) (pad_value env)) rws = map (\<lambda>r. r) rws"
        using a by (intro map_cong) (auto simp: list_all_iff)
      then show ?thesis by (simp add: df w)
    qed
  qed
qed

lemma add_distance_Inr:
  assumes "add_distance env df = Inr df'"
  shows "\<exists>ds. length ds = length (rows df)
     \<and> df' = setitem ''between_coords_distance_m'' ds df
     \<and> (\<forall>i<length (rows df).
           calculate_distance (geodesic env) (columns df) (rows df ! i) = Inr (ds ! i))"
proof (cases "rows df = []")
  case True
  with assms have "df' = setitem ''between_coords_distance_m'' [] df"
    by (auto simp: add_distance_def split: option.splits)
  with True show ?thesis by auto
next
  case False
  with assms obtain ds
    where a: "apply_rows (calculate_distance (geodesic env) (columns df)) (rows df) = Inr ds"
      and d: "df' = setitem ''between_coords_distance_m'' ds df"
    by (auto simp: add_distance_def split: sum.splits)
  from apply_rows_Inr[OF a] d show ?thesis by auto
qed

lemma aligned_setitem:
  assumes "aligned df" and "length vs = length (rows df)"
  shows "aligned (setitem key vs df)"
  using assms
  by (auto simp: aligned_def setitem_def list_all_iff in_set_zip)

lemma cells_setitem_other:
  assumes "aligned df" and "length vs = length (rows df)" and "i < length (rows df)"
    and "l \<noteq> key"
  shows "cells (columns (setitem key vs df)) (rows (setitem key vs df) ! i) l
           = cells (columns df) (rows df ! i) l"
proof -
  have len: "length (columns df) = length (rows df ! i)"
    using assms(1,3) by (simp add: aligned_def list_all_length)
  show ?thesis
    using assms(4)
    by (simp add: columns_setitem nth_rows_setitem[OF assms(2,3)] cells_replace_other
        cells_append_other[OF len])
qed

lemma cells_setitem_key:
  assumes "aligned df" and "length vs = length (rows df)" and "i < length (rows df)"
  shows "set (cells (columns (setitem key vs df)) (rows (setitem key vs df) ! i) key) = {vs ! i}"
proof -
  have len: "length (columns df) = length (rows df ! i)"
    using assms(1,3) by (simp add: aligned_def list_all_length)
  show ?thesis
  proof (cases "key \<in> set (columns df)")
    case True
    then have "cells (columns df) (rows df ! i) key \<noteq> []"
      using cells_Nil_iff[OF len, of key] by simp
    with True show ?thesis
      by (simp add: columns_setitem nth_rows_setitem[OF assms(2,3)] cells_replace_key)
  next
    case False
    then show ?thesis
      by (simp add: columns_setitem nth_rows_setitem[OF assms(2,3)] cells_append_key[OF len])
  qed
qed

lemma distinct_output_columns: "distinct output_columns"
  by (simp add: output_columns_def)

lemma output_columns_split:
  "set output_columns = insert ''between_coords_distance_m'' (set source_columns)"
  "''between_coords_distance_m'' \<notin> set source_columns"
  by (auto simp: output_columns_def source_columns_def)

lemma getitem_list_Inr:
  assumes "getitem_list ls df = Inr out"
  shows "set ls \<subseteq> set (columns df)"
    and "columns out = concat (map (\<lambda>l. filter (\<lambda>c. c = l) (columns df)) ls)"
    and "rows out = map (\<lambda>r. concat (map (cells (columns df) r) ls)) (rows df)"
  using assms
  by (auto simp: getitem_list_def Let_def filter_empty_conv split: if_splits)

lemma single_columns:
  assumes "set ls \<subseteq> set cols" and "\<forall>l\<in>set ls. count_list cols l \<le> 1"
  shows "concat (map (\<lambda>l. filter (\<lambda>c. c = l) cols) ls) = ls"
  using assms
proof (induction ls)
  case Nil
  show ?case by simp
next
  case (Cons l ls)
  have f: "filter (\<lambda>c. c = l) cols = replicate (count_list cols l) l"
    by (induction cols) auto
  have "l \<in> set cols" using Cons.prems(1) by simp
  then have "count_list cols l \<noteq> 0" by (simp add: count_list_0_iff)
  then have "0 < count_list cols l" by simp
  moreover have "count_list cols l \<le> 1" using Cons.prems(2) by simp
  ultimately have "count_list cols l = 1" by simp
  with f Cons show ?case by simp
qed

lemma project_Inr:
  assumes "project env df = Inr out"
  obtains df' where "add_distance env df = Inr df'"
    and "getitem_list output_columns df' = Inr out"
  using assms by (auto simp: project_def split: sum.splits)

lemma cells_projected:
  assumes al: "aligned df'" and g: "getitem_list output_columns df' = Inr out"
    and i: "i < length (rows df')" and l: "l \<in> set output_columns"
  shows "cells (columns out) (rows out ! i) l = cells (columns df') (rows df' ! i) l"
proof -
  have len: "length (columns df') = length (rows df' ! i)"
    using al i by (simp add: aligned_def list_all_length)
  have "cells (columns out) (rows out ! i) l
      = concat (map (\<lambda>l'. if l' = l then cells (columns df') (rows df' ! i) l else [])
          output_columns)"
    using i by (simp add: getitem_list_Inr(2,3)[OF g] cells_getitem[OF len])
  then show ?thesis
    by (simp add: concat_single_hit[OF distinct_output_columns l])
qed

text \<open>
  Claim C4, as amended. When line 74 builds the frame and lines 77 and 78 raise nothing, the
  output has as many rows as the query result, row \<open>i\<close> of the output carries under each
  source label what row \<open>i\<close> of the frame carries under it and under
  \<open>between_coords_distance_m\<close> the distance computed from that row, and the labels of the
  output are the sixteen of line 78. They are exactly that list, each label once and in that
  order, when no label of the list is carried by more than one column of the query result.
\<close>

theorem projection_keeps_rows:
  assumes "DataFrame env rws cols = Inr df" and "project env df = Inr out"
  shows "length (rows out) = length rws
     \<and> (list_all (\<lambda>r. length r = length cols) rws \<longrightarrow> rows df = rws)
     \<and> (\<forall>i<length rws. \<forall>l\<in>set source_columns.
           cells (columns out) (rows out ! i) l = cells cols (rows df ! i) l)
     \<and> (\<forall>i<length rws. \<exists>x.
           calculate_distance (geodesic env) cols (rows df ! i) = Inr x
           \<and> set (cells (columns out) (rows out ! i) ''between_coords_distance_m'') = {x})
     \<and> set (columns out) = set output_columns
     \<and> ((\<forall>l\<in>set output_columns. count_list cols l \<le> 1) \<longrightarrow> columns out = output_columns)"
proof -
  note F = DataFrame_Inr[OF assms(1)]
  obtain df' where A: "add_distance env df = Inr df'"
    and G: "getitem_list output_columns df' = Inr out"
    using assms(2) by (rule project_Inr)
  obtain ds where ds: "length ds = length (rows df)"
    and df': "df' = setitem ''between_coords_distance_m'' ds df"
    and dist: "\<forall>i<length (rows df).
           calculate_distance (geodesic env) (columns df) (rows df ! i) = Inr (ds ! i)"
    using add_distance_Inr[OF A] by blast
  have al': "aligned df'"
    unfolding df' using F(3) ds by (rule aligned_setitem)
  have n': "length (rows df') = length (rows df)"
    unfolding df' using ds by (rule length_rows_setitem)
  have cols': "columns df'
      = (if ''between_coords_distance_m'' \<in> set cols then cols
         else cols @ [''between_coords_distance_m''])"
    by (simp add: df' columns_setitem F(1))
  have 1: "length (rows out) = length rws"
    by (simp add: getitem_list_Inr(3)[OF G] n' F(2))
  have 3: "\<forall>i<length rws. \<forall>l\<in>set source_columns.
           cells (columns out) (rows out ! i) l = cells cols (rows df ! i) l"
  proof (intro allI impI ballI)
    fix i l assume i: "i < length rws" and l: "l \<in> set source_columns"
    have lo: "l \<in> set output_columns" and ld: "l \<noteq> ''between_coords_distance_m''"
      using l output_columns_split by auto
    have "cells (columns out) (rows out ! i) l = cells (columns df') (rows df' ! i) l"
      using cells_projected[OF al' G _ lo] i by (simp add: n' F(2))
    also have "\<dots> = cells (columns df) (rows df ! i) l"
      unfolding df' using F(3) ds _ ld by (rule cells_setitem_other) (simp add: i F(2))
    finally show "cells (columns out) (rows out ! i) l = cells cols (rows df ! i) l"
      by (simp add: F(1))
  qed
  have 4: "\<forall>i<length rws. \<exists>x.
           calculate_distance (geodesic env) cols (rows df ! i) = Inr x
           \<and> set (cells (columns out) (rows out ! i) ''between_coords_distance_m'') = {x}"
  proof (intro allI impI)
    fix i assume i: "i < length rws"
    then have i': "i < length (rows df)" by (simp add: F(2))
    have lo: "''between_coords_distance_m'' \<in> set output_columns"
      using output_columns_split by simp
    have "cells (columns out) (rows out ! i) ''between_coords_distance_m''
        = cells (columns df') (rows df' ! i) ''between_coords_distance_m''"
      using cells_projected[OF al' G _ lo] i' by (simp add: n')
    then have "set (cells (columns out) (rows out ! i) ''between_coords_distance_m'') = {ds ! i}"
      unfolding df' using cells_setitem_key[OF F(3) ds i'] by simp
    with dist i' show "\<exists>x. calculate_distance (geodesic env) cols (rows df ! i) = Inr x
           \<and> set (cells (columns out) (rows out ! i) ''between_coords_distance_m'') = {x}"
      by (simp add: F(1))
  qed
  have sub: "set output_columns \<subseteq> set (columns df')"
    by (rule getitem_list_Inr(1)[OF G])
  have 5: "set (columns out) = set output_columns"
    using sub by (auto simp: getitem_list_Inr(2)[OF G])
  have 6: "(\<forall>l\<in>set output_columns. count_list cols l \<le> 1) \<longrightarrow> columns out = output_columns"
  proof
    assume u: "\<forall>l\<in>set output_columns. count_list cols l \<le> 1"
    have "\<forall>l\<in>set output_columns. count_list (columns df') l \<le> 1"
      using u by (auto simp: cols' count_list_0_iff)
    then show "columns out = output_columns"
      by (simp add: getitem_list_Inr(2)[OF G] single_columns[OF sub])
  qed
  from 1 F(4) 3 4 5 6 show ?thesis by blast
qed

lemma calm_frame:
  "DataFrame calm_env [sample_row] source_columns
     = Inr \<lparr>columns = source_columns, rows = [sample_row]\<rparr>"
  "project calm_env \<lparr>columns = source_columns, rows = [sample_row]\<rparr> = Inr sample_output"
  by code_simp+

theorem projection_keeps_rows_witness:
  "length (rows sample_output) = 1
   \<and> cells (columns sample_output) (rows sample_output ! 0) ''icao24'' = [4921]
   \<and> columns sample_output = output_columns"
proof -
  have c: "\<forall>l\<in>set output_columns. count_list source_columns l \<le> 1"
    by (simp add: output_columns_def source_columns_def)
  have i: "cells source_columns sample_row ''icao24'' = [4921]"
    by code_simp
  have m: "''icao24'' \<in> set source_columns"
    by (simp add: source_columns_def)
  show ?thesis
    using projection_keeps_rows[OF calm_frame] c i m by auto
qed

text \<open>
  Against claim C4 as stated: a query result in which \<open>icao24\<close> labels two columns is
  projected to seventeen columns, both of them first.
\<close>

theorem projection_columns_counterexample:
  "DataFrame calm_env (rows twin_frame) (columns twin_frame) = Inr twin_frame
   \<and> map_sum id columns (project calm_env twin_frame) = Inr (''icao24'' # output_columns)"
  by code_simp

section \<open>The distance and the missing columns\<close>

lemma row_getitem_Inl:
  "row_getitem cols row l = Inl x \<Longrightarrow> x = KeyError [l] \<and> cells cols row l = []"
  by (auto simp: row_getitem_def split: list.splits)

text \<open>
  Claim C7, as amended. \<^verbatim>\<open>calculate_distance\<close> checks nothing itself. When the row has
  the four coordinate labels, its result is the library's for the four items, a value or an
  exception alike, whatever the coordinates are; and when it raises, the exception is either
  the \<^verbatim>\<open>KeyError\<close> of a coordinate label the row does not have or one the library
  raised.
\<close>

theorem distance_is_the_library_call:
  "(row_getitem cols row ''previous_latitude'' = Inr a
      \<and> row_getitem cols row ''previous_longitude'' = Inr b
      \<and> row_getitem cols row ''next_latitude'' = Inr c
      \<and> row_getitem cols row ''next_longitude'' = Inr d
      \<longrightarrow> calculate_distance geo cols row = geo (a, b) (c, d))
   \<and> (calculate_distance geo cols row = Inl x \<longrightarrow>
        (\<exists>l\<in>set [''previous_latitude'', ''previous_longitude'',
                   ''next_latitude'', ''next_longitude''].
            x = KeyError [l] \<and> cells cols row l = [])
        \<or> (\<exists>p q. geo p q = Inl x))"
proof (intro conjI impI)
  assume "row_getitem cols row ''previous_latitude'' = Inr a
      \<and> row_getitem cols row ''previous_longitude'' = Inr b
      \<and> row_getitem cols row ''next_latitude'' = Inr c
      \<and> row_getitem cols row ''next_longitude'' = Inr d"
  then show "calculate_distance geo cols row = geo (a, b) (c, d)"
    by (simp add: calculate_distance_def)
next
  assume f: "calculate_distance geo cols row = Inl x"
  show "(\<exists>l\<in>set [''previous_latitude'', ''previous_longitude'',
                   ''next_latitude'', ''next_longitude''].
            x = KeyError [l] \<and> cells cols row l = [])
        \<or> (\<exists>p q. geo p q = Inl x)"
  proof (cases "row_getitem cols row ''previous_latitude''")
    case (Inl e)
    with f row_getitem_Inl[OF Inl] show ?thesis by (simp add: calculate_distance_def)
  next
    case a: (Inr a)
    show ?thesis
    proof (cases "row_getitem cols row ''previous_longitude''")
      case (Inl e)
      with f a row_getitem_Inl[OF Inl] show ?thesis by (simp add: calculate_distance_def)
    next
      case b: (Inr b)
      show ?thesis
      proof (cases "row_getitem cols row ''next_latitude''")
        case (Inl e)
        with f a b row_getitem_Inl[OF Inl] show ?thesis by (simp add: calculate_distance_def)
      next
        case c: (Inr c)
        show ?thesis
        proof (cases "row_getitem cols row ''next_longitude''")
          case (Inl e)
          with f a b c row_getitem_Inl[OF Inl] show ?thesis
            by (simp add: calculate_distance_def)
        next
          case d: (Inr d)
          with f a b c have "geo (a, b) (c, d) = Inl x" by (simp add: calculate_distance_def)
          then show ?thesis by blast
        qed
      qed
    qed
  qed
qed

theorem distance_is_the_library_call_witness:
  "calculate_distance strict_taxicab source_columns sample_row = Inr 3"
proof -
  have g: "row_getitem source_columns sample_row ''previous_latitude'' = Inr (Scalar 40)"
    "row_getitem source_columns sample_row ''previous_longitude'' = Inr (Scalar (- 73))"
    "row_getitem source_columns sample_row ''next_latitude'' = Inr (Scalar 41)"
    "row_getitem source_columns sample_row ''next_longitude'' = Inr (Scalar (- 75))"
    by code_simp+
  have t: "strict_taxicab (Scalar 40, Scalar (- 73)) (Scalar 41, Scalar (- 75)) = Inr 3"
    by (simp add: strict_taxicab_def)
  show ?thesis
    using distance_is_the_library_call[of source_columns sample_row "Scalar 40" "Scalar (- 73)"
        "Scalar 41" "Scalar (- 75)" strict_taxicab] g t
    by simp
qed

text \<open>
  Against claim C7 as stated: with a distance that rejects a latitude beyond 90 degrees and
  takes any longitude, a record whose previous longitude is 190 degrees gets a distance and
  no exception.
\<close>

theorem distance_validation_counterexample:
  "row_getitem source_columns far_east_row ''previous_longitude'' = Inr (Scalar 190)
   \<and> calculate_distance strict_taxicab source_columns far_east_row = Inr 266"
  by code_simp

lemma add_distance_columns:
  "add_distance env df = Inr df' \<Longrightarrow>
     columns df' = (if ''between_coords_distance_m'' \<in> set (columns df) then columns df
                    else columns df @ [''between_coords_distance_m''])"
  by (auto simp: add_distance_def columns_setitem split: if_splits option.splits sum.splits)

lemma output_columns_parts:
  "output_columns = take 10 source_columns @ [''between_coords_distance_m''] @ drop 10 source_columns"
  by (simp add: output_columns_def source_columns_def)

lemma missing_after_distance:
  assumes "add_distance env df = Inr df'"
  shows "filter (\<lambda>l. l \<notin> set (columns df')) output_columns
           = filter (\<lambda>l. l \<notin> set (columns df)) source_columns"
proof -
  have same: "(l \<in> set (columns df')) = (l \<in> set (columns df))" if "l \<in> set source_columns" for l
    using that output_columns_split(2) by (auto simp: add_distance_columns[OF assms])
  have d: "''between_coords_distance_m'' \<in> set (columns df')"
    by (simp add: add_distance_columns[OF assms])
  have t: "filter (\<lambda>l. l \<notin> set (columns df')) (take 10 source_columns)
         = filter (\<lambda>l. l \<notin> set (columns df)) (take 10 source_columns)"
    by (rule filter_cong[OF refl], drule in_set_takeD, simp add: same)
  have r: "filter (\<lambda>l. l \<notin> set (columns df')) (drop 10 source_columns)
         = filter (\<lambda>l. l \<notin> set (columns df)) (drop 10 source_columns)"
    by (rule filter_cong[OF refl], drule in_set_dropD, simp add: same)
  have "filter (\<lambda>l. l \<notin> set (columns df)) source_columns
      = filter (\<lambda>l. l \<notin> set (columns df)) (take 10 source_columns @ drop 10 source_columns)"
    by simp
  then show ?thesis
    by (simp add: output_columns_parts d t r del: append_take_drop_id)
qed

text \<open>
  Claim C8, as amended. A frame that lacks one of the fifteen source columns is never
  projected: lines 77 and 78 raise. There is no check of the labels before the columns are
  read. The distance is computed first, row by row, so an exception of the first row's
  distance is what the projection raises, whatever labels are missing; only when line 77
  raised nothing does line 78 raise the \<^verbatim>\<open>KeyError\<close> that lists the missing source
  columns.
\<close>

theorem missing_column_is_found_late:
  "(l \<in> set source_columns \<and> l \<notin> set (columns df) \<longrightarrow> isl (project env df))
   \<and> (rows df \<noteq> []
        \<and> calculate_distance (geodesic env) (columns df) (hd (rows df)) = Inl x
        \<longrightarrow> project env df = Inl x)
   \<and> (add_distance env df = Inr df' \<and> \<not> set source_columns \<subseteq> set (columns df)
        \<longrightarrow> project env df
             = Inl (KeyError (filter (\<lambda>l. l \<notin> set (columns df)) source_columns)))"
proof (intro conjI impI)
  assume a: "add_distance env df = Inr df' \<and> \<not> set source_columns \<subseteq> set (columns df)"
  then have ad: "add_distance env df = Inr df'"
    and ne: "filter (\<lambda>l. l \<notin> set (columns df)) source_columns \<noteq> []"
    by (auto simp: filter_empty_conv)
  show "project env df
             = Inl (KeyError (filter (\<lambda>l. l \<notin> set (columns df)) source_columns))"
    using ne by (simp add: project_def ad getitem_list_def Let_def missing_after_distance[OF ad])
next
  assume "rows df \<noteq> []
        \<and> calculate_distance (geodesic env) (columns df) (hd (rows df)) = Inl x"
  then show "project env df = Inl x"
    by (simp add: project_def add_distance_def apply_rows_hd_Inl)
next
  assume l: "l \<in> set source_columns \<and> l \<notin> set (columns df)"
  show "isl (project env df)"
  proof (cases "add_distance env df")
    case (Inl e)
    then show ?thesis by (simp add: project_def)
  next
    case (Inr df'')
    have "filter (\<lambda>l. l \<notin> set (columns df)) source_columns \<noteq> []"
      using l by (auto simp: filter_empty_conv)
    then show ?thesis
      by (simp add: project_def Inr getitem_list_def Let_def missing_after_distance[OF Inr])
  qed
qed

theorem missing_column_is_found_late_witness:
  "isl (project calm_env anonymous_frame)
   \<and> project (calm_env\<lparr>geodesic := strict_taxicab\<rparr>) anonymous_frame = Inl ValueError
   \<and> project calm_env anonymous_frame = Inl (KeyError [''icao24''])"
proof -
  have l: "''icao24'' \<in> set source_columns" "''icao24'' \<notin> set (columns anonymous_frame)"
    by (simp_all add: source_columns_def anonymous_frame_def)
  have r: "rows anonymous_frame \<noteq> []"
    by (simp add: anonymous_frame_def)
  have h: "calculate_distance (geodesic (calm_env\<lparr>geodesic := strict_taxicab\<rparr>))
             (columns anonymous_frame) (hd (rows anonymous_frame)) = Inl ValueError"
    by code_simp
  have a: "add_distance calm_env anonymous_frame
      = Inr \<lparr>columns = tl source_columns @ [''between_coords_distance_m''],
             rows = [[7, 100, 160, 90, 170, 91, - 73, 41, - 75, 60, 80, 8, 7, 9, 52]]\<rparr>"
    by code_simp
  have m: "filter (\<lambda>l. l \<notin> set (columns anonymous_frame)) source_columns = [''icao24'']"
    by (simp add: source_columns_def anonymous_frame_def)
  have n: "\<not> set source_columns \<subseteq> set (columns anonymous_frame)"
    using l by blast
  show ?thesis
    using missing_column_is_found_late[of "''icao24''" anonymous_frame calm_env]
      missing_column_is_found_late[of _ anonymous_frame "calm_env\<lparr>geodesic := strict_taxicab\<rparr>"
        ValueError]
      missing_column_is_found_late[of _ anonymous_frame calm_env _
        "\<lparr>columns = tl source_columns @ [''between_coords_distance_m''],
             rows = [[7, 100, 160, 90, 170, 91, - 73, 41, - 75, 60, 80, 8, 7, 9, 52]]\<rparr>"]
      l r h a m n
    by simp
qed

text \<open>
  Against claim C8 as stated: on a frame without \<open>icao24\<close> whose first record has a
  latitude the distance rejects, the projection raises the distance's \<^verbatim>\<open>ValueError\<close>:
  the coordinate columns were read before any label was missed.
\<close>

theorem missing_column_counterexample:
  "''icao24'' \<notin> set (columns anonymous_frame)
   \<and> project (calm_env\<lparr>geodesic := strict_taxicab\<rparr>) anonymous_frame = Inl ValueError"
  by code_simp

section \<open>Further properties of a run\<close>

lemma window_loop_zero_stride:
  assumes "s < e" and "datetime_min \<le> s" and "s \<le> datetime_max"
  shows "window_loop body s e 0 st = None"
proof (cases "window_loop body s e 0 st")
  case None
  then show ?thesis .
next
  case (Some y)
  have "\<not> (c0 < e0 \<and> d0 = 0 \<and> datetime_min \<le> c0 \<and> c0 \<le> datetime_max)"
    if "window_loop b c0 e0 d0 x = Some z" for b c0 e0 d0 and x :: 'a and z
  proof (rule window_loop.raw_induct[where
        P = "\<lambda>b c0 e0 d0 x z. \<not> (c0 < e0 \<and> d0 = 0 \<and> datetime_min \<le> c0 \<and> c0 \<le> datetime_max)",
        OF _ that])
    fix f b c0 e0 d0 and x :: 'a and z
    assume ih: "\<And>c1 e1 d1 x1 b1 y1. f c1 e1 d1 x1 b1 = Some y1 \<Longrightarrow>
        \<not> (e1 < d1 \<and> x1 = 0 \<and> datetime_min \<le> e1 \<and> e1 \<le> datetime_max)"
      and step: "(if c0 < e0
        then case datetime_add c0 d0 of Inl e \<Rightarrow> Some (Some e, x)
             | Inr next_date \<Rightarrow> f b next_date e0 d0 (b c0 next_date x)
        else Some (None, x)) = Some z"
    show "\<not> (c0 < e0 \<and> d0 = 0 \<and> datetime_min \<le> c0 \<and> c0 \<le> datetime_max)"
    proof
      assume a: "c0 < e0 \<and> d0 = 0 \<and> datetime_min \<le> c0 \<and> c0 \<le> datetime_max"
      then have "datetime_add c0 d0 = Inr c0" by (simp add: datetime_add_def)
      with step a have "f b c0 e0 d0 (b c0 c0 x) = Some z" by simp
      from ih[OF this] a show False by simp
    qed
  qed
  from this[OF Some] assms show ?thesis by simp
qed

text \<open>
  Property X1. With a stride of zero and a start before the end, the loop of lines 59 to 91
  never ends: \<^verbatim>\<open>main\<close> has no result.
\<close>

theorem zero_stride_never_ends:
  assumes "connect env = None" and "cursor_execute env prepared_statement = None"
    and "s < e" and "datetime_min \<le> s" and "s \<le> datetime_max"
  shows "main env s e 0 = None"
  by (simp add: main_def connecting_ok[OF assms(1)] preparing_ok[OF assms(2)]
      window_loop_zero_stride[OF assms(3,4,5)])

theorem zero_stride_never_ends_witness:
  "main calm_env 1672531200 1672704000 0 = None"
  using zero_stride_never_ends[OF calm_env_ready, of 1672531200 1672704000]
  by (simp add: datetime_min_def datetime_max_def)

text \<open>
  Property X2. When the first \<^verbatim>\<open>current_date + delta\<close> is beyond the last
  \<^verbatim>\<open>datetime\<close>, line 60 raises \<^verbatim>\<open>OverflowError\<close> outside the \<^verbatim>\<open>try\<close>: the
  exception leaves \<^verbatim>\<open>main\<close> before any window is processed and before lines 94 to 98
  close anything.
\<close>

theorem overflow_leaves_main:
  assumes "connect env = None" and "cursor_execute env prepared_statement = None"
    and "s < e" and "datetime_max < s + d"
  shows "main env s e d = Some (Some OverflowError, prepared_world)"
proof -
  have "window_loop (window_body env) s e d prepared_world
          = Some (Some OverflowError, prepared_world)"
    using assms(3,4) by (subst window_loop.simps) (simp add: datetime_add_def)
  then show ?thesis
    by (simp add: main_def connecting_ok[OF assms(1)] preparing_ok[OF assms(2)])
qed

theorem overflow_leaves_main_witness:
  "main calm_env (datetime 9999 12 31) (datetime 9999 12 31 + 43200) (timedelta 1)
     = Some (Some OverflowError, prepared_world)
   \<and> window_count (datetime 9999 12 31) (datetime 9999 12 31 + 43200) (timedelta 1) = 1"
proof -
  have d: "datetime 9999 12 31 = 253402214400" "timedelta 1 = 86400"
    by code_simp+
  have c: "window_count 253402214400 (253402214400 + 43200) 86400 = 1"
    by (simp add: window_count_def)
  show ?thesis
    using overflow_leaves_main[OF calm_env_ready, of 253402214400 "253402214400 + 43200" 86400] c
    by (simp add: d datetime_max_def)
qed

text \<open>
  Property X3. When the connection fails, \<^verbatim>\<open>main\<close> returns with two \<open>ERROR\<close>
  records, the one of \<^verbatim>\<open>connect_to_database\<close> and its own, and nothing else done.
\<close>

theorem failed_connection_ends_the_run:
  assumes "connect env = Some x"
  shows "main env s e d
     = Some (None, \<lparr>logged = [ERROR ''Failed to connect to the database: '' x,
                               ERROR ''Could not establish database connection: '' x],
                     executed = [], files = [], printed = [], closed = []\<rparr>)"
  using assms
  by (simp add: main_def connecting_def connect_to_database_def logging_error_def world0_def)

theorem failed_connection_ends_the_run_witness:
  "main offline_env 1672531200 1672704000 86400
     = Some (None, \<lparr>logged = [ERROR ''Failed to connect to the database: '' (Raised ''refused''),
                               ERROR ''Could not establish database connection: ''
                                 (Raised ''refused'')],
                     executed = [], files = [], printed = [], closed = []\<rparr>)"
  using failed_connection_ends_the_run[of offline_env "Raised ''refused''"]
  by (simp add: offline_env_def calm_env_def)

text \<open>
  Property X4. The epoch values of lines 62 and 63 are those of the machine's local time:
  one hour east of UTC the first day of 2023 is named with 1672527600, not 1672531200.
\<close>

theorem file_names_follow_the_time_zone:
  assumes "\<forall>t. utcoffset env t = 3600"
  shows "general_file_name env 1672531200 1672617600
           = ''1672527600-1672614000_2023-01-01_to_2023-01-02.xlsx''"
proof -
  have "str_int 1672527600 = ''1672527600''" "str_int 1672614000 = ''1672614000''"
    by code_simp+
  then show ?thesis
    using assms by (simp add: general_file_name_def unix_time_def str_int_2023)
qed

theorem file_names_follow_the_time_zone_witness:
  "general_file_name east_env 1672531200 1672617600
     = ''1672527600-1672614000_2023-01-01_to_2023-01-02.xlsx''"
  using file_names_follow_the_time_zone[of east_env]
  by (simp add: east_env_def calm_env_def)

text \<open>
  Property X5. After the loop, a cursor whose \<^verbatim>\<open>close()\<close> raises leaves an
  \<open>ERROR\<close> record as the last of the log, \<^verbatim>\<open>main\<close> returns, and the connection's
  \<^verbatim>\<open>close()\<close> is never called.
\<close>

theorem close_failure_is_logged:
  assumes "connect env = None" and "cursor_execute env prepared_statement = None"
    and "valid_config s e d" and "cursor_close env = Some x"
  shows "\<exists>w. main env s e d = Some (None, w)
     \<and> last (logged w) = ERROR ''Failed to close database connection: '' x
     \<and> closed w = []"
proof -
  let ?w = "fold (\<lambda>(c, n). window_body env c n) (windows s e d) prepared_world"
  have c: "closed ?w = []"
    using fold_window_body[of env "windows s e d" prepared_world]
    by (simp add: prepared_world_def)
  have "main env s e d = Some (None, closing env ?w)"
    using main_run[OF assms(1,2,3)] .
  then show ?thesis
    using assms(4) c by (simp add: closing_def logging_error_def)
qed

theorem close_failure_is_logged_witness:
  "\<exists>w. main sticky_env 1672531200 1672704000 86400 = Some (None, w)
     \<and> last (logged w) = ERROR ''Failed to close database connection: '' (Raised ''gone'')
     \<and> closed w = []"
proof -
  have r: "connect sticky_env = None" "cursor_execute sticky_env prepared_statement = None"
    "cursor_close sticky_env = Some (Raised ''gone'')"
    by (simp_all add: sticky_env_def calm_env_def)
  show ?thesis
    using close_failure_is_logged[OF r(1,2) valid_config_days_2023(1) r(3)] .
qed

text \<open>
  Property X6. The configuration of lines 12 to 14 is valid and gives 365 windows, from the
  first day of 2023 to the last.
\<close>

theorem script_configuration:
  "valid_config start_date end_date delta
   \<and> length (windows start_date end_date delta) = 365
   \<and> hd (windows start_date end_date delta) = (datetime 2023 1 1, datetime 2023 1 2)
   \<and> last (windows start_date end_date delta) = (datetime 2023 12 31, datetime 2024 1 1)"
proof -
  have d: "start_date = 1672531200" "end_date = 1704067200" "delta = 86400"
    "datetime 2023 1 1 = 1672531200" "datetime 2023 1 2 = 1672617600"
    "datetime 2023 12 31 = 1703980800" "datetime 2024 1 1 = 1704067200"
    by code_simp+
  have c: "window_count 1672531200 1704067200 86400 = 365"
    by (simp add: window_count_def)
  have v: "valid_config 1672531200 1704067200 86400"
    by (simp add: valid_config_def c datetime_min_def datetime_max_def)
  have h: "hd (windows 1672531200 1704067200 86400) = (1672531200, 1672617600)"
    by (simp add: windows_Cons)
  have l: "last (windows 1672531200 1704067200 86400) = (1703980800, 1704067200)"
    by (simp add: windows_def c last_map last_upt del: upt_Suc)
  show ?thesis
    unfolding d using v h l by (simp add: length_windows c)
qed

end
